theory Spec2Isabelle
  imports Main "HOL-Library.Word"
begin

section \<open>Values, strings and bytes\<close>

text \<open>
  The server is \<^verbatim>\<open>src/server.js\<close>: an Express application with two upload routes
  (multipart through multer, base64 through a JSON body), a static mount that serves the
  uploads directory, two health routes, an error middleware and a final 404 handler.
  The model is a shallow embedding: every handler is a function from the environment, the
  file system and the request to the new file system and the response.

  Strings are \<^typ>\<open>string\<close>: lists of 8-bit characters, which is what a JavaScript
  string whose code units are all below 256 is. Bytes are \<^typ>\<open>8 word\<close>.

  The file calls into Express, cors, multer and Node. What the model takes from them:
  \<^item> Express runs the middleware and routes in the order of registration; a route path
    matches without regard to case and with or without a trailing slash; \<^verbatim>\<open>app.get\<close> also
    answers \<^verbatim>\<open>HEAD\<close>, and the answer to \<^verbatim>\<open>HEAD\<close> has no body; an error passed to \<^verbatim>\<open>next\<close> goes to
    the error middleware of line 172.
  \<^item> \<^verbatim>\<open>cors\<close> with its default \<^verbatim>\<open>preflightContinue: false\<close> ends every \<^verbatim>\<open>OPTIONS\<close> request with 204.
  \<^item> The body parsers either raise an error or leave \<^verbatim>\<open>req.body\<close>; a request records which.
  \<^item> \<^verbatim>\<open>upload.single('screenshot')\<close> takes one file, in that field only; the \<^verbatim>\<open>fileFilter\<close> is
    asked before the file is read, and the size limit is counted while it is written: the
    limit is reached by a file of \<open>fileSize\<close> bytes or more.
  \<^item> \<^verbatim>\<open>express.static\<close> serves \<^verbatim>\<open>GET\<close> and \<^verbatim>\<open>HEAD\<close> below the mount, refuses paths that leave the
    root and dot files, redirects a directory, and passes everything it cannot serve on.
    For a file it has found it honours conditional headers and byte ranges; a request
    records what they come to.
  \<^item> Node: \<^verbatim>\<open>path.join\<close> on POSIX, \<^verbatim>\<open>fs.writeFileSync\<close> and \<^verbatim>\<open>fs.statSync\<close> on a file system of
    files and directories, and the lenient base64 decoder of \<^verbatim>\<open>Buffer\<close>.
\<close>

type_synonym byte = "8 word"

text \<open>A value of JavaScript as the handlers see it in \<^verbatim>\<open>req.body\<close> and as \<^verbatim>\<open>res.json\<close> sends it.
  An object is its list of properties, in order; reading a property takes the first entry.\<close>

datatype jsval =
    JUndefined
  | JNull
  | JBool bool
  | JNum int
  | JStr string
  | JArr "jsval list"
  | JObj "(string \<times> jsval) list"

text \<open>Truthiness, as \<^verbatim>\<open>!x\<close> and \<^verbatim>\<open>x || y\<close> test it.\<close>

fun truthy :: "jsval \<Rightarrow> bool" where
  "truthy JUndefined = False"
| "truthy JNull = False"
| "truthy (JBool b) = b"
| "truthy (JNum n) = (n \<noteq> 0)"
| "truthy (JStr s) = (s \<noteq> [])"
| "truthy (JArr xs) = True"
| "truthy (JObj kvs) = True"

text \<open>\<^verbatim>\<open>String.prototype.startsWith\<close>.\<close>

definition startsWith :: "string \<Rightarrow> string \<Rightarrow> bool" where
  "startsWith s p = (take (length p) s = p)"

definition is_lower :: "char \<Rightarrow> bool" where
  "is_lower c = (c \<in> set ''abcdefghijklmnopqrstuvwxyz'')"

definition is_upper :: "char \<Rightarrow> bool" where
  "is_upper c = (c \<in> set ''ABCDEFGHIJKLMNOPQRSTUVWXYZ'')"

definition is_digit :: "char \<Rightarrow> bool" where
  "is_digit c = (c \<in> set ''0123456789'')"

text \<open>Lower case of the ASCII letters, as a case-insensitive route pattern folds them.\<close>

definition to_lower :: "char \<Rightarrow> char" where
  "to_lower c =
     (case map_of (zip ''ABCDEFGHIJKLMNOPQRSTUVWXYZ'' ''abcdefghijklmnopqrstuvwxyz'') c of
        None \<Rightarrow> c
      | Some l \<Rightarrow> l)"

text \<open>The decimal digits of a number, as a template literal prints \<^verbatim>\<open>${timestamp}\<close>.\<close>

fun string_of_nat :: "nat \<Rightarrow> string" where
  "string_of_nat n =
     (if n < 10 then [''0123456789'' ! n]
      else string_of_nat (n div 10) @ [''0123456789'' ! (n mod 10)])"

declare string_of_nat.simps [simp del]

section \<open>Paths (Node's \<^verbatim>\<open>path\<close> module on POSIX)\<close>

text \<open>\<^verbatim>\<open>String.prototype.split\<close> on a separator class: the pieces between separators,
  empty pieces included.\<close>

fun split_on :: "(char \<Rightarrow> bool) \<Rightarrow> string \<Rightarrow> string list" where
  "split_on sep [] = [[]]"
| "split_on sep (c # cs) =
     (if sep c then [] # split_on sep cs
      else (case split_on sep cs of
              [] \<Rightarrow> [[c]]
            | s # ss \<Rightarrow> (c # s) # ss))"

definition is_slash :: "char \<Rightarrow> bool" where
  "is_slash c = (c = CHR ''/'')"

fun join_sep :: "string list \<Rightarrow> string" where
  "join_sep [] = []"
| "join_sep [s] = s"
| "join_sep (s # t # ss) = s @ ''/'' @ join_sep (t # ss)"

text \<open>\<^verbatim>\<open>normalizeString\<close>: empty and \<^verbatim>\<open>.\<close> segments are dropped, \<^verbatim>\<open>..\<close> removes the
  segment before it; where there is none, it is kept only when the path is relative
  (\<open>allowAboveRoot\<close>). The segments kept so far are held in reverse.\<close>

fun normalizeString :: "bool \<Rightarrow> string list \<Rightarrow> string list \<Rightarrow> string list" where
  "normalizeString allowAboveRoot res [] = rev res"
| "normalizeString allowAboveRoot res (s # ss) =
     (if s = [] \<or> s = ''.'' then normalizeString allowAboveRoot res ss
      else if s = ''..'' then
        (case res of
           [] \<Rightarrow> normalizeString allowAboveRoot (if allowAboveRoot then [''..''] else []) ss
         | r # rs \<Rightarrow>
             if r = ''..''
             then normalizeString allowAboveRoot (if allowAboveRoot then ''..'' # res else res) ss
             else normalizeString allowAboveRoot rs ss)
      else normalizeString allowAboveRoot (s # res) ss)"

text \<open>\<^verbatim>\<open>path.normalize\<close>.\<close>

definition path_normalize :: "string \<Rightarrow> string" where
  "path_normalize p =
     (if p = [] then ''.''
      else
        let isAbsolute = (hd p = CHR ''/'');
            trailingSeparator = (last p = CHR ''/'');
            q = join_sep (normalizeString (\<not> isAbsolute) [] (split_on is_slash p))
        in if q = [] then (if isAbsolute then ''/'' else if trailingSeparator then ''./'' else ''.'')
           else (if isAbsolute then ''/'' else []) @ q @ (if trailingSeparator then ''/'' else []))"

text \<open>\<^verbatim>\<open>path.join\<close> of string arguments: the non-empty ones joined by \<^verbatim>\<open>/\<close>, then normalised.\<close>

definition path_join :: "string list \<Rightarrow> string" where
  "path_join args =
     (let joined = join_sep (filter (\<lambda>a. a \<noteq> []) args)
      in if joined = [] then ''.'' else path_normalize joined)"

section \<open>The file system (Node's \<^verbatim>\<open>fs\<close> module)\<close>

text \<open>The files with their contents, and the directories, by path.\<close>

record filesystem =
  files :: "string \<rightharpoonup> byte list"
  dirs :: "string set"

text \<open>What the runtime raises on its own: the two \<^verbatim>\<open>TypeError\<close>s of the language (reading a
  property of \<^verbatim>\<open>undefined\<close> or \<^verbatim>\<open>null\<close>, calling what is not a function), the argument
  checks of Node's \<^verbatim>\<open>path\<close> and \<^verbatim>\<open>fs\<close>, and the system errors of a write, with the path.\<close>

datatype runtime_fault =
    NotAnObject
  | NotAFunction
  | ERR_INVALID_ARG_TYPE
  | ERR_INVALID_ARG_VALUE
  | EISDIR string
  | ENOENT string
  | ENOTDIR string
  | ENAMETOOLONG string

text \<open>An error value: \<^verbatim>\<open>new Error(message)\<close>, a \<^verbatim>\<open>MulterError\<close> with its code, or a
  fault of the runtime.\<close>

datatype js_error =
    Error string
  | MulterError string
  | RuntimeError runtime_fault

text \<open>The length of a name in bytes, as the file system counts it: the strings of the
  model hold the characters up to 255, and one above 127 takes two bytes.\<close>

definition byte_length :: "string \<Rightarrow> nat" where
  "byte_length s = length s + length (filter (\<lambda>c. 128 \<le> (of_char c :: nat)) s)"

text \<open>The walk along the components of a path when a file is opened for writing, from the
  directory \<open>cur\<close>: a component of more than 255 bytes is \<^verbatim>\<open>ENAMETOOLONG\<close>; every component
  but the last must be a directory, \<^verbatim>\<open>ENOTDIR\<close> when it is a file and \<^verbatim>\<open>ENOENT\<close> when it is
  missing.\<close>

fun path_walk :: "filesystem \<Rightarrow> string \<Rightarrow> string \<Rightarrow> string list \<Rightarrow> runtime_fault option" where
  "path_walk fs p cur [] = None"
| "path_walk fs p cur (s # ss) =
     (if 255 < byte_length s then Some (ENAMETOOLONG p)
      else if ss = [] then None
      else
        let q = (if cur = [] then s else if cur = ''/'' then cur @ s else cur @ ''/'' @ s)
        in if s = ''.'' \<or> s = ''..'' \<or> q \<in> dirs fs then path_walk fs p q ss
           else if files fs q \<noteq> None then Some (ENOTDIR p)
           else Some (ENOENT p))"

text \<open>\<^verbatim>\<open>fs.writeFileSync(path, data)\<close> and the write stream of multer's disk storage, on Linux.
  Node refuses a path with a NUL character. The system refuses the empty path and a path
  of 4096 bytes or more, then walks the directories; at the end a path with a trailing
  separator, a directory, and \<^verbatim>\<open>.\<close> or \<^verbatim>\<open>..\<close> cannot be opened for writing. Permissions are
  not modelled: every directory can be written to.\<close>

definition writeFileSync :: "filesystem \<Rightarrow> string \<Rightarrow> byte list \<Rightarrow> runtime_fault + filesystem" where
  "writeFileSync fs p bytes =
     (if CHR 0x00 \<in> set p then Inl ERR_INVALID_ARG_VALUE
      else if p = [] then Inl (ENOENT p)
      else if 4096 \<le> byte_length p then Inl (ENAMETOOLONG p)
      else
        (case path_walk fs p (if hd p = CHR ''/'' then ''/'' else [])
                (filter (\<lambda>s. s \<noteq> []) (split_on is_slash p)) of
           Some fault \<Rightarrow> Inl fault
         | None \<Rightarrow>
             if last p = CHR ''/'' \<or> p \<in> dirs fs
                \<or> last (split_on is_slash p) = ''.'' \<or> last (split_on is_slash p) = ''..''
             then Inl (EISDIR p)
             else Inr (fs\<lparr>files := (files fs)(p \<mapsto> bytes)\<rparr>)))"

text \<open>\<^verbatim>\<open>fs.statSync(path)\<close>: whether the path is a directory, and the size in bytes (the
  size of a directory is not modelled, and no handler reads it).\<close>

record stats =
  isDirectory :: bool
  st_size :: nat

definition statSync :: "filesystem \<Rightarrow> string \<Rightarrow> runtime_fault + stats" where
  "statSync fs p =
     (if p \<in> dirs fs then Inr \<lparr>isDirectory = True, st_size = 0\<rparr>
      else (case files fs p of
              None \<Rightarrow> Inl (ENOENT p)
            | Some bytes \<Rightarrow> Inr \<lparr>isDirectory = False, st_size = length bytes\<rparr>))"

text \<open>\<^verbatim>\<open>fs.unlink\<close>, as multer's disk storage removes a file of an aborted upload.\<close>

definition unlink :: "filesystem \<Rightarrow> string \<Rightarrow> filesystem" where
  "unlink fs p = fs\<lparr>files := (files fs)(p := None)\<rparr>"

section \<open>Base64 decoding (Node's \<^verbatim>\<open>Buffer\<close>)\<close>

text \<open>The value of a character of the base64 alphabet; Node accepts the URL-safe
  alphabet as well.\<close>

definition unbase64 :: "char \<Rightarrow> nat option" where
  "unbase64 c =
     map_of (zip (''ABCDEFGHIJKLMNOPQRSTUVWXYZabcdefghijklmnopqrstuvwxyz0123456789+/'' @ ''-_'')
                 ([0 ..< 64] @ [62, 63])) c"

text \<open>Node's decoder is lenient: a character outside the alphabet is skipped, and the
  first \<^verbatim>\<open>=\<close> ends the input. No string makes it raise.\<close>

fun sextets :: "string \<Rightarrow> nat list" where
  "sextets [] = []"
| "sextets (c # cs) =
     (if c = CHR ''='' then []
      else (case unbase64 c of
              None \<Rightarrow> sextets cs
            | Some v \<Rightarrow> v # sextets cs))"

text \<open>Four values of 6 bits give three bytes; a last group of three gives two bytes, of
  two gives one, and a single value gives none.\<close>

fun decode_groups :: "nat list \<Rightarrow> byte list" where
  "decode_groups (a # b # c # d # rest) =
     [of_nat (a * 4 + b div 16), of_nat ((b mod 16) * 16 + c div 4), of_nat ((c mod 4) * 64 + d)]
       @ decode_groups rest"
| "decode_groups [a, b, c] = [of_nat (a * 4 + b div 16), of_nat ((b mod 16) * 16 + c div 4)]"
| "decode_groups [a, b] = [of_nat (a * 4 + b div 16)]"
| "decode_groups [a] = []"
| "decode_groups [] = []"

definition base64_decode :: "string \<Rightarrow> byte list" where
  "base64_decode s = decode_groups (sextets s)"

section \<open>The environment, requests and responses\<close>

text \<open>What the process reads from outside a request: the directory of the script
  (\<^verbatim>\<open>__dirname\<close>), the clock (\<^verbatim>\<open>Date.now()\<close> in milliseconds and \<^verbatim>\<open>new Date().toISOString()\<close>) and
  the message text the runtime gives to an error it raises itself.\<close>

record env =
  script_dir :: string
  now :: nat
  now_iso :: string
  runtime_message :: "runtime_fault \<Rightarrow> string"

text \<open>\<^verbatim>\<open>const uploadsDir = path.join(__dirname, 'uploads')\<close>.\<close>

definition uploadsDir :: "env \<Rightarrow> string" where
  "uploadsDir e = path_join [script_dir e, ''uploads'']"

datatype http_method = GET | HEAD | POST | OPTIONS | OtherMethod string

text \<open>A file part of a multipart body, as the parser hands it to multer.\<close>

record file_part =
  fieldname :: string
  originalname :: string
  mimetype :: string
  content :: "byte list"

text \<open>What the static file server makes of the conditional headers and the \<^verbatim>\<open>Range\<close> header
  of a request, for the file it has found: the whole file, the bytes from \<open>i\<close> to \<open>j\<close>
  (206), not modified (304), a failed precondition (412), a range outside the file (416).
  It compares the headers with the entity tag and the modification time of the file, which
  the file system of this model does not hold.\<close>

datatype negotiation =
    Whole
  | Part nat nat
  | NotModified
  | PreconditionFailed
  | RangeNotSatisfiable

text \<open>A request: method, path of the URL, headers (\<^verbatim>\<open>req.headers\<close>: names in lower case),
  what \<^verbatim>\<open>express.json\<close> and \<^verbatim>\<open>express.urlencoded\<close> made of the body (the error one of them
  raised, or \<^verbatim>\<open>req.body\<close> as they leave it), for a \<^verbatim>\<open>multipart/form-data\<close> body its text fields
  (as multer collects them into \<^verbatim>\<open>req.body\<close>; they are within multer's limits for field names
  and values) and its file parts in order, and the outcome of the negotiation above, which
  is read only when the request has a conditional header or a byte range.\<close>

record request =
  rmethod :: http_method
  rpath :: string
  headers :: "(string \<times> string) list"
  parser_outcome :: "js_error + jsval"
  multipart :: "((string \<times> jsval) list \<times> file_part list) option"
  negotiated :: negotiation

datatype resp_body = Json jsval | Raw "byte list" | Redirect string | NoBody

record response =
  status :: nat
  body :: resp_body

text \<open>\<^verbatim>\<open>error.message\<close>.\<close>

fun message :: "env \<Rightarrow> js_error \<Rightarrow> string" where
  "message e (Error m) = m"
| "message e (MulterError code) =
     (if code = ''LIMIT_FILE_SIZE'' then ''File too large''
      else if code = ''LIMIT_UNEXPECTED_FILE'' then ''Unexpected field''
      else code)"
| "message e (RuntimeError f) = runtime_message e f"

text \<open>The body of every \<^verbatim>\<open>res.status(500).json(...)\<close> of the file: lines 118 to 122, 163 to
  167 and 185 to 189 send the same object.\<close>

definition internal_server_error :: "env \<Rightarrow> js_error \<Rightarrow> response" where
  "internal_server_error e err =
     \<lparr>status = 500,
      body = Json (JObj [(''success'', JBool False),
                         (''error'', JStr ''Internal server error''),
                         (''message'', JStr (message e err))])\<rparr>"

text \<open>The success descriptor of both upload routes (lines 106 to 112 and 151 to 157).\<close>

definition uploaded :: "string \<Rightarrow> nat \<Rightarrow> response" where
  "uploaded name n =
     \<lparr>status = 200,
      body = Json (JObj [(''success'', JBool True),
                         (''filename'', JStr name),
                         (''message'', JStr ''Screenshot uploaded successfully''),
                         (''url'', JStr (''/uploads/'' @ name)),
                         (''size'', JNum (int n))])\<rparr>"

text \<open>Reading the property \<open>k\<close> of a value that is neither \<^verbatim>\<open>undefined\<close> nor \<^verbatim>\<open>null\<close>, for the
  keys the handlers read (\<^verbatim>\<open>image\<close>, \<^verbatim>\<open>filename\<close>): only an object can have them.\<close>

fun get_prop :: "jsval \<Rightarrow> string \<Rightarrow> jsval" where
  "get_prop (JObj kvs) k = (case map_of kvs k of None \<Rightarrow> JUndefined | Some v \<Rightarrow> v)"
| "get_prop v k = JUndefined"

text \<open>Destructuring and \<^verbatim>\<open>Object.keys\<close> raise a \<^verbatim>\<open>TypeError\<close> on \<^verbatim>\<open>undefined\<close> and \<^verbatim>\<open>null\<close>.\<close>

fun is_nullish :: "jsval \<Rightarrow> bool" where
  "is_nullish JUndefined = True"
| "is_nullish JNull = True"
| "is_nullish v = False"

section \<open>The multipart route: multer, then the handler\<close>

text \<open>\<^verbatim>\<open>limits: { fileSize: 10 * 1024 * 1024 }\<close>.\<close>

definition fileSize :: nat where
  "fileSize = 10 * 1024 * 1024"

text \<open>The \<^verbatim>\<open>fileFilter\<close> of lines 38 to 44: \<^verbatim>\<open>cb(null, true)\<close> or \<^verbatim>\<open>cb(new Error(...))\<close>.\<close>

definition fileFilter :: "file_part \<Rightarrow> js_error + bool" where
  "fileFilter file =
     (if startsWith (mimetype file) ''image/'' then Inr True
      else Inl (Error ''Only image files are allowed''))"

text \<open>The \<^verbatim>\<open>filename\<close> callback of the disk storage (lines 26 to 30).\<close>

definition storage_filename :: "env \<Rightarrow> string" where
  "storage_filename e = ''screenshot-'' @ string_of_nat (now e) @ ''.png''"

text \<open>\<^verbatim>\<open>req.file\<close>, as the disk storage fills it in.\<close>

record multer_file =
  file_filename :: string
  file_path :: string
  file_mimetype :: string
  file_size :: nat

text \<open>An aborted upload: multer removes the file it has stored and passes the error on.\<close>

definition abort_upload :: "filesystem \<Rightarrow> multer_file option \<Rightarrow> js_error
    \<Rightarrow> filesystem \<times> (js_error + multer_file option)" where
  "abort_upload fs stored err =
     ((case stored of None \<Rightarrow> fs | Some f \<Rightarrow> unlink fs (file_path f)), Inl err)"

text \<open>multer over the file parts, for \<^verbatim>\<open>upload.single('screenshot')\<close>. \<open>filesLeft\<close> is the
  number of files the field \<^verbatim>\<open>screenshot\<close> may still take (1 at the start). A part without
  a file name is skipped. A file in another field, or a second file, is
  \<^verbatim>\<open>LIMIT_UNEXPECTED_FILE\<close>; then the \<^verbatim>\<open>fileFilter\<close> decides; then the disk storage writes the
  file to \<^verbatim>\<open>path.join(uploadsDir, filename)\<close>, at most \<open>fileSize\<close> bytes of it: the parser
  reports the limit as soon as it has read \<open>fileSize\<close> bytes, so that a file of \<open>fileSize\<close>
  bytes or more is \<^verbatim>\<open>LIMIT_FILE_SIZE\<close>. \<open>stored\<close> is the file stored so far.\<close>

fun multer_files :: "env \<Rightarrow> file_part list \<Rightarrow> nat \<Rightarrow> multer_file option \<Rightarrow> filesystem
    \<Rightarrow> filesystem \<times> (js_error + multer_file option)" where
  "multer_files e [] filesLeft stored fs = (fs, Inr stored)"
| "multer_files e (part # parts) filesLeft stored fs =
     (if originalname part = [] then multer_files e parts filesLeft stored fs
      else if fieldname part \<noteq> ''screenshot'' \<or> filesLeft = 0
      then abort_upload fs stored (MulterError ''LIMIT_UNEXPECTED_FILE'')
      else
        (case fileFilter part of
           Inl err \<Rightarrow> abort_upload fs stored err
         | Inr includeFile \<Rightarrow>
             if \<not> includeFile then multer_files e parts (filesLeft - 1) stored fs
             else
               let finalPath = path_join [uploadsDir e, storage_filename e];
                   written = take fileSize (content part);
                   file = \<lparr>file_filename = storage_filename e, file_path = finalPath,
                           file_mimetype = mimetype part, file_size = length written\<rparr>
               in (case writeFileSync fs finalPath written of
                     Inl fault \<Rightarrow> abort_upload fs stored (RuntimeError fault)
                   | Inr fs' \<Rightarrow>
                       if fileSize \<le> length (content part)
                       then abort_upload fs' (Some file) (MulterError ''LIMIT_FILE_SIZE'')
                       else multer_files e parts (filesLeft - 1) (Some file) fs')))"

text \<open>\<^verbatim>\<open>upload.single('screenshot')\<close>: a request that is not multipart passes unchanged, with
  no \<^verbatim>\<open>req.file\<close>; of a multipart request the text fields become \<^verbatim>\<open>req.body\<close>. The result is
  the error passed to \<^verbatim>\<open>next\<close>, or \<^verbatim>\<open>req.body\<close> and \<^verbatim>\<open>req.file\<close>.\<close>

definition upload_single :: "env \<Rightarrow> filesystem \<Rightarrow> jsval \<Rightarrow> request
    \<Rightarrow> filesystem \<times> (js_error + jsval \<times> multer_file option)" where
  "upload_single e fs req_body req =
     (case multipart req of
        None \<Rightarrow> (fs, Inr (req_body, None))
      | Some (text_fields, parts) \<Rightarrow>
          (case multer_files e parts 1 None fs of
             (fs', Inl err) \<Rightarrow> (fs', Inl err)
           | (fs', Inr file) \<Rightarrow> (fs', Inr (JObj text_fields, file))))"

text \<open>The handler of \<^verbatim>\<open>POST /api/screenshot\<close> (lines 83 to 124). Line 87 calls
  \<^verbatim>\<open>Object.keys(req.body)\<close>, which throws inside the \<^verbatim>\<open>try\<close> when there is no body object.\<close>

definition screenshot_handler :: "env \<Rightarrow> jsval \<Rightarrow> (string \<times> string) list \<Rightarrow> multer_file option
    \<Rightarrow> response" where
  "screenshot_handler e req_body req_headers req_file =
     (if is_nullish req_body then internal_server_error e (RuntimeError NotAnObject)
      else
        (case req_file of
           None \<Rightarrow>
             \<lparr>status = 400,
              body = Json (JObj [(''success'', JBool False),
                                 (''error'', JStr ''No file received''),
                                 (''received'',
                                    JObj [(''body'', req_body),
                                          (''headers'', JObj (map (\<lambda>(k, v). (k, JStr v)) req_headers))])])\<rparr>
         | Some file \<Rightarrow> uploaded (file_filename file) (file_size file)))"

text \<open>The error handling middleware (lines 172 to 190).\<close>

definition error_middleware :: "env \<Rightarrow> js_error \<Rightarrow> response" where
  "error_middleware e err =
     (case err of
        MulterError code \<Rightarrow>
          if code = ''LIMIT_FILE_SIZE''
          then \<lparr>status = 400,
                 body = Json (JObj [(''success'', JBool False),
                                    (''error'', JStr ''File too large''),
                                    (''message'', JStr ''File size should be less than 10MB'')])\<rparr>
          else internal_server_error e err
      | _ \<Rightarrow> internal_server_error e err)"

text \<open>The route \<^verbatim>\<open>app.post('/api/screenshot', upload.single('screenshot'), handler)\<close>.\<close>

definition post_screenshot :: "env \<Rightarrow> filesystem \<Rightarrow> jsval \<Rightarrow> request \<Rightarrow> filesystem \<times> response" where
  "post_screenshot e fs req_body req =
     (case upload_single e fs req_body req of
        (fs', Inl err) \<Rightarrow> (fs', error_middleware e err)
      | (fs', Inr (req_body', req_file)) \<Rightarrow>
          (fs', screenshot_handler e req_body' (headers req) req_file))"

section \<open>The base64 route\<close>

text \<open>\<^verbatim>\<open>image.replace(/^data:image\/[a-z]+;base64,/, '')\<close> on a string: after \<^verbatim>\<open>data:image/\<close>
  the longest run of lower case letters, which must not be empty and must be followed by
  \<^verbatim>\<open>;base64,\<close>; the match is removed, and a string that does not match is returned as it is.\<close>

definition strip_data_url :: "string \<Rightarrow> string" where
  "strip_data_url s =
     (if startsWith s ''data:image/'' then
        (let rest = drop (length ''data:image/'') s;
             letters = takeWhile is_lower rest;
             tail = dropWhile is_lower rest
         in if letters \<noteq> [] \<and> startsWith tail '';base64,''
            then drop (length '';base64,'') tail
            else s)
      else s)"

text \<open>The handler of \<^verbatim>\<open>POST /api/screenshot/base64\<close> (lines 127 to 169), statement by
  statement; every \<open>Inl\<close> is an exception caught by the \<^verbatim>\<open>catch\<close> of line 161.\<close>

definition base64_handler :: "env \<Rightarrow> filesystem \<Rightarrow> jsval \<Rightarrow> filesystem \<times> response" where
  "base64_handler e fs req_body =
     (if is_nullish req_body then (fs, internal_server_error e (RuntimeError NotAnObject))
      else
        let image_field = get_prop req_body ''image'';
            filename_field = get_prop req_body ''filename''
        in if \<not> truthy image_field
           then (fs, \<lparr>status = 400,
                      body = Json (JObj [(''success'', JBool False),
                                         (''error'', JStr ''No image data received'')])\<rparr>)
           else
             (case image_field of
                JStr image_string \<Rightarrow>
                  let base64Data = strip_data_url image_string;
                      timestamp = now e;
                      finalFilename =
                        (if truthy filename_field then filename_field
                         else JStr (''screenshot-'' @ string_of_nat timestamp @ ''.png''))
                  in (case finalFilename of
                        JStr name \<Rightarrow>
                          let filepath = path_join [uploadsDir e, name]
                          in (case writeFileSync fs filepath (base64_decode base64Data) of
                                Inl fault \<Rightarrow> (fs, internal_server_error e (RuntimeError fault))
                              | Inr fs' \<Rightarrow>
                                  (case statSync fs' filepath of
                                     Inl fault \<Rightarrow> (fs', internal_server_error e (RuntimeError fault))
                                   | Inr st \<Rightarrow> (fs', uploaded name (st_size st))))
                      | _ \<Rightarrow> (fs, internal_server_error e (RuntimeError ERR_INVALID_ARG_TYPE)))
              | _ \<Rightarrow> (fs, internal_server_error e (RuntimeError NotAFunction))))"

section \<open>The static mount (\<^verbatim>\<open>express.static\<close>)\<close>

definition hex_value :: "char \<Rightarrow> nat option" where
  "hex_value c = map_of (zip ''0123456789abcdefABCDEF'' ([0 ..< 16] @ [10 ..< 16])) c"

definition hex_byte :: "char \<Rightarrow> char \<Rightarrow> nat option" where
  "hex_byte h1 h2 =
     (case hex_value h1 of
        None \<Rightarrow> None
      | Some a \<Rightarrow> (case hex_value h2 of None \<Rightarrow> None | Some b \<Rightarrow> Some (16 * a + b)))"

text \<open>\<^verbatim>\<open>decodeURIComponent\<close>, on the strings of the model. An escape below \<^verbatim>\<open>%80\<close> is that
  character; \<^verbatim>\<open>%C2\<close> or \<^verbatim>\<open>%C3\<close> with a continuation escape is a character from 128 to 255.
  Every other escape gives \<open>None\<close>: it is malformed (the function throws), or it is a
  character above 255, which no path of the model's file system holds. In both cases the
  static mount passes the request on.\<close>

fun uri_decode :: "string \<Rightarrow> string option" where
  "uri_decode [] = Some []"
| "uri_decode (c # cs) =
     (if c \<noteq> CHR ''%'' then map_option ((#) c) (uri_decode cs)
      else
        (case cs of
           h1 # h2 # rest \<Rightarrow>
             (case hex_byte h1 h2 of
                None \<Rightarrow> None
              | Some v \<Rightarrow>
                  if v < 128 then map_option ((#) (char_of v)) (uri_decode rest)
                  else if v = 194 \<or> v = 195 then
                    (case rest of
                       p # g1 # g2 # rest' \<Rightarrow>
                         if p = CHR ''%'' then
                           (case hex_byte g1 g2 of
                              None \<Rightarrow> None
                            | Some w \<Rightarrow>
                                if 128 \<le> w \<and> w < 192
                                then map_option ((#) (char_of ((v - 192) * 64 + (w - 128))))
                                       (uri_decode rest')
                                else None)
                         else None
                     | _ \<Rightarrow> None)
                  else None)
         | _ \<Rightarrow> None))"

text \<open>\<^verbatim>\<open>UP_PATH_REGEXP = /(?:^|[\\/])\.\.(?:[\\/]|$)/\<close>: some piece between separators (slash
  or backslash) is \<^verbatim>\<open>..\<close>.\<close>

definition up_path :: "string \<Rightarrow> bool" where
  "up_path p = (''..'' \<in> set (split_on (\<lambda>c. c = CHR ''/'' \<or> c = CHR 0x5C) p))"

text \<open>\<^verbatim>\<open>containsDotFile\<close>: a part longer than one character that starts with a dot.\<close>

definition containsDotFile :: "string list \<Rightarrow> bool" where
  "containsDotFile parts = list_ex (\<lambda>part. 1 < length part \<and> hd part = CHR ''.'') parts"

text \<open>\<^verbatim>\<open>req.headers[name]\<close> as a condition: the header is there and not empty.\<close>

definition header_set :: "(string \<times> string) list \<Rightarrow> string \<Rightarrow> bool" where
  "header_set hs name = (case map_of hs name of None \<Rightarrow> False | Some v \<Rightarrow> v \<noteq> [])"

text \<open>\<^verbatim>\<open>isConditionalGET\<close>, and the test of the \<^verbatim>\<open>Range\<close> header against
  \<^verbatim>\<open>BYTES_RANGE_REGEXP = /^ *bytes=/i\<close>.\<close>

definition isConditionalGET :: "(string \<times> string) list \<Rightarrow> bool" where
  "isConditionalGET hs =
     (header_set hs ''if-match'' \<or> header_set hs ''if-unmodified-since''
      \<or> header_set hs ''if-none-match'' \<or> header_set hs ''if-modified-since'')"

definition isRangeRequest :: "(string \<times> string) list \<Rightarrow> bool" where
  "isRangeRequest hs =
     (case map_of hs ''range'' of
        None \<Rightarrow> False
      | Some v \<Rightarrow> startsWith (map to_lower (dropWhile (\<lambda>c. c = CHR '' '') v)) ''bytes='')"

text \<open>What \<^verbatim>\<open>send\<close> does with a path: it serves the file or a part of it, answers 304, raises
  an error that is passed on (\<open>Failed\<close>), reports a directory, or finds nothing (\<open>Next\<close>).\<close>

datatype sent =
    Served "byte list"
  | ServedPart "byte list"
  | Unchanged
  | Failed js_error
  | Directory
  | Next

text \<open>The file at a path, for a response: a directory is reported, a missing file is \<open>Next\<close>.
  For a file that is there, a conditional request is answered 412 or 304 as the
  validators decide, and a byte range is answered 416 or with the part asked for; the
  errors are those of \<^verbatim>\<open>http-errors\<close>, with the status text as message.\<close>

definition sendFile :: "request \<Rightarrow> filesystem \<Rightarrow> string \<Rightarrow> sent" where
  "sendFile req fs p =
     (case statSync fs p of
        Inl fault \<Rightarrow> Next
      | Inr st \<Rightarrow>
          if isDirectory st then Directory
          else
            (case files fs p of
               None \<Rightarrow> Next
             | Some bytes \<Rightarrow>
                 if isConditionalGET (headers req) \<or> isRangeRequest (headers req) then
                   (case negotiated req of
                      Whole \<Rightarrow> Served bytes
                    | Part i j \<Rightarrow> ServedPart (take (j + 1 - i) (drop i bytes))
                    | NotModified \<Rightarrow> Unchanged
                    | PreconditionFailed \<Rightarrow> Failed (Error ''Precondition Failed'')
                    | RangeNotSatisfiable \<Rightarrow> Failed (Error ''Range Not Satisfiable''))
                 else Served bytes))"

text \<open>The \<^verbatim>\<open>send\<close> stream that \<^verbatim>\<open>express.static\<close> pipes, with the options of line 59 (a root, the
  defaults otherwise: dot files ignored, \<^verbatim>\<open>index.html\<close> for a path with a trailing slash).
  Every error before a file is found is \<open>Next\<close>: the mount falls through.\<close>

definition send :: "request \<Rightarrow> filesystem \<Rightarrow> string \<Rightarrow> string \<Rightarrow> sent" where
  "send req fs root p =
     (case uri_decode p of
        None \<Rightarrow> Next
      | Some decoded \<Rightarrow>
          if CHR 0x00 \<in> set decoded then Next
          else
            let relative = (if decoded = [] then [] else path_normalize (''./'' @ decoded))
            in if up_path relative then Next
               else
                 let parts = split_on is_slash relative;
                     full = path_normalize (path_join [root, relative])
                 in if containsDotFile parts then Next
                    else if p \<noteq> [] \<and> last p = CHR ''/''
                    then (case sendFile req fs (path_join [full, ''index.html'']) of
                            Directory \<Rightarrow> Next
                          | answer \<Rightarrow> answer)
                    else sendFile req fs full)"

text \<open>\<^verbatim>\<open>app.use('/uploads', ...)\<close>: the mount matches \<^verbatim>\<open>/uploads\<close> (in any case of letters) at
  the start of the path when the path ends there or a slash follows; the result is the
  path the static middleware works on. It is empty for the mount point itself (the
  directory redirect).\<close>

definition mounted :: "string \<Rightarrow> string option" where
  "mounted p =
     (if map to_lower (take (length ''/uploads'') p) = ''/uploads'' then
        (let r = drop (length ''/uploads'') p
         in if r = [] then Some []
            else if hd r \<noteq> CHR ''/'' then None
            else if startsWith r ''//'' then Some (drop 1 r)
            else Some r)
      else None)"

text \<open>The static middleware: only \<^verbatim>\<open>GET\<close> and \<^verbatim>\<open>HEAD\<close>; \<open>None\<close> is \<^verbatim>\<open>next()\<close>. An error raised
  once the file is found goes to the error middleware of the application (lines 172 to
  190), which answers it.\<close>

definition serve_static :: "env \<Rightarrow> filesystem \<Rightarrow> request \<Rightarrow> response option" where
  "serve_static e fs req =
     (case mounted (rpath req) of
        None \<Rightarrow> None
      | Some p \<Rightarrow>
          if rmethod req \<noteq> GET \<and> rmethod req \<noteq> HEAD then None
          else
            (case send req fs (uploadsDir e) p of
               Served bytes \<Rightarrow> Some \<lparr>status = 200, body = Raw bytes\<rparr>
             | ServedPart bytes \<Rightarrow> Some \<lparr>status = 206, body = Raw bytes\<rparr>
             | Unchanged \<Rightarrow> Some \<lparr>status = 304, body = NoBody\<rparr>
             | Failed err \<Rightarrow> Some (error_middleware e err)
             | Directory \<Rightarrow> Some \<lparr>status = 301, body = Redirect (rpath req @ ''/'')\<rparr>
             | Next \<Rightarrow> None))"

section \<open>The application\<close>

text \<open>A route path of Express matches without regard to case, with or without a
  trailing slash.\<close>

definition route_match :: "string \<Rightarrow> string \<Rightarrow> bool" where
  "route_match pattern p =
     (map to_lower p = pattern \<or> (pattern \<noteq> ''/'' \<and> map to_lower p = pattern @ ''/''))"

text \<open>\<^verbatim>\<open>app.get\<close> also answers \<^verbatim>\<open>HEAD\<close>.\<close>

definition is_get :: "http_method \<Rightarrow> bool" where
  "is_get m = (m = GET \<or> m = HEAD)"

text \<open>The two health routes (lines 67 to 80).\<close>

definition root_handler :: "env \<Rightarrow> response" where
  "root_handler e =
     \<lparr>status = 200,
      body = Json (JObj [(''status'', JStr ''Web Audit API Server is running''),
                         (''timestamp'', JStr (now_iso e)),
                         (''uploadsDir'', JStr (uploadsDir e))])\<rparr>"

definition health_handler :: "env \<Rightarrow> response" where
  "health_handler e =
     \<lparr>status = 200,
      body = Json (JObj [(''status'', JStr ''healthy''),
                         (''timestamp'', JStr (now_iso e))])\<rparr>"

text \<open>The 404 handler (lines 193 to 205).\<close>

definition not_found :: response where
  "not_found =
     \<lparr>status = 404,
      body = Json (JObj [(''success'', JBool False),
                         (''error'', JStr ''Endpoint not found''),
                         (''available_endpoints'',
                            JArr [JStr ''GET /'',
                                  JStr ''GET /api/health'',
                                  JStr ''POST /api/screenshot'',
                                  JStr ''POST /api/screenshot/base64'',
                                  JStr ''GET /uploads/:filename''])])\<rparr>"

text \<open>The answer to a \<^verbatim>\<open>HEAD\<close> request carries no body.\<close>

definition finish :: "request \<Rightarrow> response \<Rightarrow> response" where
  "finish req r = (if rmethod req = HEAD then r\<lparr>body := NoBody\<rparr> else r)"

text \<open>The middleware and routes in the order the file registers them: \<^verbatim>\<open>cors\<close> (which
  answers every \<^verbatim>\<open>OPTIONS\<close> request itself, with 204), the two body parsers (an error of
  theirs goes to the error middleware), the static mount, the four routes, and the 404
  handler.\<close>

definition app :: "env \<Rightarrow> filesystem \<Rightarrow> request \<Rightarrow> filesystem \<times> response" where
  "app e fs req =
     (if rmethod req = OPTIONS then (fs, \<lparr>status = 204, body = NoBody\<rparr>)
      else
        (case parser_outcome req of
           Inl err \<Rightarrow> (fs, finish req (error_middleware e err))
         | Inr req_body \<Rightarrow>
             (case serve_static e fs req of
                Some r \<Rightarrow> (fs, finish req r)
              | None \<Rightarrow>
                  if is_get (rmethod req) \<and> route_match ''/'' (rpath req)
                  then (fs, finish req (root_handler e))
                  else if is_get (rmethod req) \<and> route_match ''/api/health'' (rpath req)
                  then (fs, finish req (health_handler e))
                  else if rmethod req = POST \<and> route_match ''/api/screenshot'' (rpath req)
                  then post_screenshot e fs req_body req
                  else if rmethod req = POST \<and> route_match ''/api/screenshot/base64'' (rpath req)
                  then base64_handler e fs req_body
                  else (fs, finish req not_found))))"

text \<open>Whether one of the four routes or the static mount is registered for the method
  and path of a request.\<close>

definition routed :: "request \<Rightarrow> bool" where
  "routed req =
     ((is_get (rmethod req) \<and> route_match ''/'' (rpath req))
      \<or> (is_get (rmethod req) \<and> route_match ''/api/health'' (rpath req))
      \<or> (rmethod req = POST \<and> route_match ''/api/screenshot'' (rpath req))
      \<or> (rmethod req = POST \<and> route_match ''/api/screenshot/base64'' (rpath req))
      \<or> (is_get (rmethod req) \<and> mounted (rpath req) \<noteq> None))"

section \<open>Predicates and concrete inputs for the properties\<close>

text \<open>A list of path segments in normal form: no empty segment, no \<^verbatim>\<open>.\<close>, and \<^verbatim>\<open>..\<close> only
  at the front, and only when \<open>allow\<close> holds (a relative path).\<close>

fun nf :: "bool \<Rightarrow> string list \<Rightarrow> bool" where
  "nf allow [] = True"
| "nf allow (s # ss) =
     (s \<noteq> [] \<and> s \<noteq> ''.'' \<and> (if s = ''..'' then allow \<and> nf allow ss else nf False ss))"

text \<open>A plain file name: letters, digits, \<^verbatim>\<open>-\<close>, \<^verbatim>\<open>_\<close> and \<^verbatim>\<open>.\<close>, not empty and not
  starting with a dot. The names the server generates are of this kind.\<close>

definition plain_char :: "char \<Rightarrow> bool" where
  "plain_char c = (is_lower c \<or> is_upper c \<or> is_digit c \<or> c \<in> set ''-_.'')"

definition plain_name :: "string \<Rightarrow> bool" where
  "plain_name name = (name \<noteq> [] \<and> hd name \<noteq> CHR ''.'' \<and> list_all plain_char name)"


text \<open>The \<^verbatim>\<open>filename\<close> the base64 handler uses for a body (lines 144 and 145).\<close>

definition finalFilename :: "env \<Rightarrow> jsval \<Rightarrow> jsval" where
  "finalFilename e req_body =
     (if truthy (get_prop req_body ''filename'') then get_prop req_body ''filename''
      else JStr (''screenshot-'' @ string_of_nat (now e) @ ''.png''))"

text \<open>An installation in \<^verbatim>\<open>/app\<close>, at a fixed time, with an empty uploads directory.\<close>

definition env0 :: env where
  "env0 = \<lparr>script_dir = ''/app'', now = 1700000000123,
            now_iso = ''2023-11-14T22:13:20.123Z'',
            runtime_message = (\<lambda>fault. ''runtime error'')\<rparr>"

definition fs0 :: filesystem where
  "fs0 = \<lparr>files = Map.empty, dirs = {''/'', ''/app'', ''/app/uploads''}\<rparr>"

text \<open>A request with a JSON body, and a request with a multipart body.\<close>

definition json_request :: "http_method \<Rightarrow> string \<Rightarrow> jsval \<Rightarrow> request" where
  "json_request m p b =
     \<lparr>rmethod = m, rpath = p, headers = [(''content-type'', ''application/json'')],
      parser_outcome = Inr b, multipart = None, negotiated = Whole\<rparr>"

definition multipart_request :: "string \<Rightarrow> file_part list \<Rightarrow> request" where
  "multipart_request p parts =
     \<lparr>rmethod = POST, rpath = p, headers = [(''content-type'', ''multipart/form-data'')],
      parser_outcome = Inr (JObj []), multipart = Some ([(''note'', JStr ''hello'')], parts),
      negotiated = Whole\<rparr>"


definition traversal_body :: jsval where
  "traversal_body = JObj [(''image'', JStr ''aGVsbG8=''), (''filename'', JStr ''../evil.png'')]"




definition bare_body :: jsval where
  "bare_body = JObj [(''image'', JStr ''aGVsbG8=''), (''filename'', JStr ''shot.png'')]"

text \<open>Whether a path lies inside a directory.\<close>

definition inside :: "string \<Rightarrow> string \<Rightarrow> bool" where
  "inside dir p = startsWith p (dir @ ''/'')"

text \<open>File parts for the multipart route: a small image, a file in another field, a text
  file, a part without a file name, and two files of one byte more than the limit.\<close>

definition png_part :: file_part where
  "png_part = \<lparr>fieldname = ''screenshot'', originalname = ''test.png'',
                mimetype = ''image/png'', content = [137, 80, 78, 71]\<rparr>"

definition avatar_part :: file_part where
  "avatar_part = \<lparr>fieldname = ''avatar'', originalname = ''me.png'',
                   mimetype = ''image/png'', content = [137, 80, 78, 71]\<rparr>"


definition nameless_part :: file_part where
  "nameless_part = \<lparr>fieldname = ''screenshot'', originalname = [],
                     mimetype = ''application/octet-stream'', content = []\<rparr>"



text \<open>The JSON value a response carries.\<close>

definition json_body :: "response \<Rightarrow> jsval" where
  "json_body r = (case body r of Json v \<Rightarrow> v | _ \<Rightarrow> JUndefined)"

text \<open>A file name that does not lead out of the directory it is joined to: when its
  segments are normalised, at least one is left and the first is not \<^verbatim>\<open>..\<close>.\<close>

definition stays_inside :: "string \<Rightarrow> bool" where
  "stays_inside name =
     (case normalizeString True [] (split_on is_slash name) of
        [] \<Rightarrow> False
      | s # ss \<Rightarrow> s \<noteq> ''..'')"

text \<open>A file name that the static mount accepts: it has no NUL character, and when its
  segments are normalised at least one is left, none is \<^verbatim>\<open>..\<close> (between slashes or
  backslashes) and none starts with a dot.\<close>

definition servable :: "string \<Rightarrow> bool" where
  "servable name =
     (let segments = normalizeString True [] (split_on is_slash name)
      in CHR 0x00 \<notin> set name
         \<and> segments \<noteq> []
         \<and> \<not> up_path (join_sep segments)
         \<and> \<not> containsDotFile segments)"

text \<open>The path of a request as it stands in the request line: printable ASCII characters,
  without \<^verbatim>\<open>?\<close> and \<^verbatim>\<open>#\<close>, which end the path. Every other character of a URL is sent
  percent-encoded.\<close>

definition url_path :: "string \<Rightarrow> bool" where
  "url_path p =
     list_all (\<lambda>c. 32 < (of_char c :: nat) \<and> (of_char c :: nat) < 127
                    \<and> c \<noteq> CHR ''?'' \<and> c \<noteq> CHR ''#'') p"

text \<open>The condition on the \<^verbatim>\<open>filename\<close> field of a base64 upload under which the file can be
  fetched back: the field is absent (or not a string, or empty) so that the server
  generates the name, or it is a name as above.\<close>

definition servable_or_absent :: "jsval \<Rightarrow> bool" where
  "servable_or_absent v = (case v of JStr s \<Rightarrow> s = [] \<or> servable s | _ \<Rightarrow> True)"

text \<open>A text file in a field of another name, an image of exactly the size of the limit,
  file names with characters outside the letters and digits, and a request that asks for
  a byte range.\<close>

definition exact_png_part :: file_part where
  "exact_png_part = \<lparr>fieldname = ''screenshot'', originalname = ''exact.png'',
                      mimetype = ''image/png'', content = replicate fileSize 0\<rparr>"


definition retina_body :: jsval where
  "retina_body = JObj [(''image'', JStr ''aGVsbG8=''), (''filename'', JStr ''shot@2x.png'')]"

definition spaced_body :: jsval where
  "spaced_body = JObj [(''image'', JStr ''aGVsbG8=''), (''filename'', JStr ''my shot.png'')]"

definition range_request :: "string \<Rightarrow> request" where
  "range_request p =
     \<lparr>rmethod = GET, rpath = p, headers = [(''range'', ''bytes=0-1'')],
      parser_outcome = Inr (JObj []), multipart = None, negotiated = Part 0 1\<rparr>"

text \<open>The same installation five seconds later.\<close>

definition env1 :: env where
  "env1 = env0\<lparr>now := 1700000005123, now_iso := ''2023-11-14T22:13:25.123Z''\<rparr>"

section \<open>Path normalisation yields a normal form and is idempotent\<close>

lemma normalizeString_clean:
  "nf False ss \<Longrightarrow> normalizeString allow res ss = rev res @ ss"
  by (induction ss arbitrary: res) (auto split: if_splits)

lemma normalizeString_dots:
  "nf True ss \<Longrightarrow> list_all (\<lambda>s. s = ''..'') res \<Longrightarrow> normalizeString True res ss = rev res @ ss"
proof (induction ss arbitrary: res)
  case Nil
  then show ?case by simp
next
  case (Cons s ss)
  show ?case
  proof (cases "s = ''..''")
    case True
    with Cons.prems have "nf True ss" by simp
    with Cons.IH [of "''..'' # res"] Cons.prems(2) True show ?thesis
      by (cases res) auto
  next
    case False
    with Cons.prems have "nf False ss" "s \<noteq> []" "s \<noteq> ''.''" by auto
    with False show ?thesis by (simp add: normalizeString_clean)
  qed
qed

lemma normalizeString_nf: "nf allow ss \<Longrightarrow> normalizeString allow [] ss = ss"
proof (cases allow)
  case True
  assume "nf allow ss"
  with True normalizeString_dots [of ss "[]"] show ?thesis by simp
next
  case False
  assume "nf allow ss"
  with False normalizeString_clean [of ss allow "[]"] show ?thesis by simp
qed

lemma nf_prefix: "nf allow (xs @ ys) \<Longrightarrow> nf allow xs"
  by (induction xs arbitrary: allow) (auto split: if_splits)

lemma nf_snoc: "nf allow xs \<Longrightarrow> s \<noteq> [] \<Longrightarrow> s \<noteq> ''.'' \<Longrightarrow> s \<noteq> ''..'' \<Longrightarrow> nf allow (xs @ [s])"
  by (induction xs arbitrary: allow) (auto split: if_splits)

lemma nf_last_dots:
  "nf allow xs \<Longrightarrow> xs \<noteq> [] \<Longrightarrow> last xs = ''..'' \<Longrightarrow> allow \<and> nf allow (xs @ [''..''])"
proof (induction xs arbitrary: allow)
  case Nil
  then show ?case by simp
next
  case (Cons s ss)
  show ?case
  proof (cases "ss = []")
    case True
    with Cons.prems show ?thesis by auto
  next
    case False
    with Cons.prems have l: "last ss = ''..''" by simp
    show ?thesis
    proof (cases "s = ''..''")
      case True
      with Cons.prems have "nf allow ss" "allow" by auto
      with Cons.IH [of allow] False l True show ?thesis by auto
    next
      case s: False
      with Cons.prems have "nf False ss" by auto
      with Cons.IH [of False] False l show ?thesis by auto
    qed
  qed
qed

lemma nf_normalizeString:
  "nf allow (rev res) \<Longrightarrow> nf allow (normalizeString allow res ss)"
proof (induction ss arbitrary: res)
  case Nil
  then show ?case by simp
next
  case (Cons s ss)
  show ?case
  proof (cases "s = [] \<or> s = ''.''")
    case True
    with Cons show ?thesis by auto
  next
    case False
    show ?thesis
    proof (cases "s = ''..''")
      case s: True
      show ?thesis
      proof (cases res)
        case Nil
        with s Cons.IH [of "[''..'']"] Cons.IH [of "[]"] show ?thesis by auto
      next
        case (Cons r rs)
        show ?thesis
        proof (cases "r = ''..''")
          case True
          with Cons Cons.prems nf_last_dots [of allow "rev res"]
          have "allow" "nf allow (rev (''..'' # res))" by auto
          with s Cons True Cons.IH [of "''..'' # res"] show ?thesis by simp
        next
          case False
          from Cons Cons.prems have "nf allow (rev rs)" using nf_prefix [of allow "rev rs" "[r]"] by simp
          with s Cons False Cons.IH [of rs] show ?thesis by simp
        qed
      qed
    next
      case s: False
      with False Cons.prems have "nf allow (rev (s # res))" by (simp add: nf_snoc)
      with False s Cons.IH [of "s # res"] show ?thesis by simp
    qed
  qed
qed

lemma split_on_piece:
  "\<not> list_ex sep s \<Longrightarrow> sep c \<Longrightarrow> split_on sep (s @ c # rest) = s # split_on sep rest"
  by (induction s) (auto split: list.splits)

lemma split_on_single: "\<not> list_ex sep s \<Longrightarrow> split_on sep s = [s]"
  by (induction s) (auto split: list.splits)

lemma split_on_pieces: "list_all (\<lambda>s. \<not> list_ex sep s) (split_on sep p)"
  by (induction p) (auto split: list.splits)

lemma is_slash_slash: "is_slash CHR ''/''"
  by (simp add: is_slash_def)

lemma split_join:
  "R \<noteq> [] \<Longrightarrow> list_all (\<lambda>s. \<not> list_ex is_slash s) R \<Longrightarrow> split_on is_slash (join_sep R) = R"
proof (induction R rule: join_sep.induct)
  case 1
  then show ?case by simp
next
  case (2 s)
  then show ?case by (simp add: split_on_single)
next
  case (3 s t ss)
  then show ?case
    using split_on_piece [of is_slash s "CHR ''/''" "join_sep (t # ss)"]
    by (simp add: is_slash_slash)
qed

lemma split_join_slash:
  "R \<noteq> [] \<Longrightarrow> list_all (\<lambda>s. \<not> list_ex is_slash s) R
    \<Longrightarrow> split_on is_slash (join_sep R @ ''/'') = R @ [[]]"
proof (induction R rule: join_sep.induct)
  case 1
  then show ?case by simp
next
  case (2 s)
  then show ?case
    using split_on_piece [of is_slash s "CHR ''/''" "[]"] by (simp add: is_slash_slash)
next
  case (3 s t ss)
  then show ?case
    using split_on_piece [of is_slash s "CHR ''/''" "join_sep (t # ss) @ ''/''"]
    by (simp add: is_slash_slash)
qed

lemma normalizeString_pieces:
  "list_all P res \<Longrightarrow> list_all P ss \<Longrightarrow> P ''..'' \<Longrightarrow> list_all P (normalizeString allow res ss)"
proof (induction ss arbitrary: res)
  case Nil
  then show ?case by simp
next
  case (Cons s ss)
  from Cons.prems have a: "list_all P ss" "P s" by simp_all
  have ih: "list_all P (normalizeString allow res' ss)" if "list_all P res'" for res'
    using Cons.IH [of res'] that a(1) Cons.prems(3) by simp
  have t: "list_all P (tl res)" using Cons.prems(1) by (cases res) simp_all
  have "list_all P (normalizeString allow [] ss)" "list_all P (normalizeString allow [''..''] ss)"
    "list_all P (normalizeString allow res ss)" "list_all P (normalizeString allow (''..'' # res) ss)"
    "list_all P (normalizeString allow (s # res) ss)" "list_all P (normalizeString allow (tl res) ss)"
    using Cons.prems a t by (simp_all add: ih)
  then show ?case by (cases res) auto
qed

lemma normalizeString_snoc_empty:
  "normalizeString allow res (ss @ [[]]) = normalizeString allow res ss"
  by (induction ss arbitrary: res) (auto split: list.splits)

lemma nf_nonempty: "nf allow R \<Longrightarrow> list_all (\<lambda>s. s \<noteq> []) R"
  by (induction R arbitrary: allow) (auto split: if_splits)

lemma join_sep_hd:
  "R \<noteq> [] \<Longrightarrow> list_all (\<lambda>s. s \<noteq> []) R \<Longrightarrow> join_sep R \<noteq> [] \<and> hd (join_sep R) = hd (hd R)"
  by (induction R rule: join_sep.induct) auto

lemma join_sep_last:
  "R \<noteq> [] \<Longrightarrow> list_all (\<lambda>s. s \<noteq> []) R \<Longrightarrow> last (join_sep R) = last (last R)"
proof (induction R rule: join_sep.induct)
  case (3 s t ss)
  then have "join_sep (t # ss) \<noteq> []" using join_sep_hd [of "t # ss"] by simp
  with 3 show ?case by simp
qed auto

lemma not_slash_hd_last:
  "s \<noteq> [] \<Longrightarrow> \<not> list_ex is_slash s \<Longrightarrow> hd s \<noteq> CHR ''/'' \<and> last s \<noteq> CHR ''/''"
proof -
  assume "s \<noteq> []" and ns: "\<not> list_ex is_slash s"
  then have "hd s \<in> set s" "last s \<in> set s" by simp_all
  with ns show ?thesis by (auto simp: list_ex_iff is_slash_def)
qed

lemma list_all_hd_last: "R \<noteq> [] \<Longrightarrow> list_all P R \<Longrightarrow> P (hd R) \<and> P (last R)"
  by (simp add: list_all_iff)

lemma path_normalize_idem: "path_normalize (path_normalize p) = path_normalize p"
proof (cases "p = []")
  case True
  then show ?thesis by (simp add: path_normalize_def is_slash_def)
next
  case False
  define ab where "ab = (hd p = CHR ''/'')"
  define tr where "tr = (last p = CHR ''/'')"
  define R where "R = normalizeString (\<not> ab) [] (split_on is_slash p)"
  have nfR: "nf (\<not> ab) R"
    unfolding R_def by (rule nf_normalizeString) simp
  have sl: "list_all (\<lambda>s. \<not> list_ex is_slash s) R"
    unfolding R_def by (rule normalizeString_pieces) (simp_all add: split_on_pieces is_slash_def)
  have ne: "list_all (\<lambda>s. s \<noteq> []) R" using nfR by (rule nf_nonempty)
  have np: "path_normalize p =
      (if join_sep R = [] then (if ab then ''/'' else if tr then ''./'' else ''.'')
       else (if ab then ''/'' else []) @ join_sep R @ (if tr then ''/'' else []))"
    using False by (simp add: path_normalize_def Let_def ab_def tr_def R_def)
  show ?thesis
  proof (cases "R = []")
    case True
    then show ?thesis unfolding np by (simp add: path_normalize_def is_slash_def)
  next
    case R: False
    with ne have q: "join_sep R \<noteq> []" "hd (join_sep R) = hd (hd R)" "last (join_sep R) = last (last R)"
      by (simp_all add: join_sep_hd join_sep_last)
    from R ne sl have "hd R \<noteq> []" "\<not> list_ex is_slash (hd R)" "last R \<noteq> []" "\<not> list_ex is_slash (last R)"
      using list_all_hd_last [of R "\<lambda>s. s \<noteq> []"] list_all_hd_last [of R "\<lambda>s. \<not> list_ex is_slash s"]
      by simp_all
    then have hl: "hd (join_sep R) \<noteq> CHR ''/''" "last (join_sep R) \<noteq> CHR ''/''"
      using not_slash_hd_last [of "hd R"] not_slash_hd_last [of "last R"] q by auto
    define r where "r = (if ab then ''/'' else []) @ join_sep R @ (if tr then ''/'' else [])"
    have pr: "path_normalize p = r" unfolding np r_def using q by simp
    have r_ne: "r \<noteq> []" unfolding r_def using q by simp
    have r_hd: "(hd r = CHR ''/'') = ab" unfolding r_def using q hl by (simp add: hd_append)
    have r_last: "(last r = CHR ''/'') = tr" unfolding r_def using q hl by simp
    have sp: "normalizeString (\<not> ab) [] (split_on is_slash r) = R"
    proof -
      have "split_on is_slash (join_sep R @ (if tr then ''/'' else [])) = R @ (if tr then [[]] else [])"
        using R sl by (simp add: split_join split_join_slash)
      then have "split_on is_slash r = (if ab then [[]] else []) @ R @ (if tr then [[]] else [])"
        unfolding r_def by (simp add: is_slash_slash)
      moreover have "normalizeString (\<not> ab) [] R = R"
        using nfR by (rule normalizeString_nf)
      moreover have "normalizeString (\<not> ab) [] (R @ [[]]) = R"
        using nfR by (simp add: normalizeString_snoc_empty normalizeString_nf)
      ultimately show ?thesis
        by (cases ab; cases tr) simp_all
    qed
    have "path_normalize r =
        (if ab then ''/'' else []) @ join_sep R @ (if tr then ''/'' else [])"
      using r_ne r_hd r_last sp q(1) by (simp add: path_normalize_def Let_def)
    then have "path_normalize r = r" by (simp only: r_def)
    with pr show ?thesis by simp
  qed
qed

section \<open>Joining a name onto a directory\<close>

lemma split_on_nonempty: "split_on sep p \<noteq> []"
  by (induction p) (auto split: list.splits)

lemma split_on_append:
  "sep c \<Longrightarrow> split_on sep (a @ c # b) = split_on sep a @ split_on sep b"
proof (induction a)
  case Nil
  then show ?case by simp
next
  case (Cons x a)
  obtain s ss where s: "split_on sep a = s # ss"
    using split_on_nonempty [of sep a] by (cases "split_on sep a") auto
  with Cons show ?case by simp
qed

lemma normalizeString_append:
  "normalizeString allow res (xs @ ys) =
     normalizeString allow (rev (normalizeString allow res xs)) ys"
proof (induction xs arbitrary: res)
  case Nil
  then show ?case by simp
next
  case (Cons s xs)
  note IH = Cons.IH
  show ?case
  proof (cases "s = [] \<or> s = ''.''")
    case True
    then show ?thesis using IH [of res] by auto
  next
    case False
    show ?thesis
    proof (cases "s = ''..''")
      case dots: True
      show ?thesis
      proof (cases res)
        case Nil
        with dots show ?thesis
          using IH [of "[''..'']"] IH [of "[]"] by (cases allow) simp_all
      next
        case (Cons r rs)
        show ?thesis
        proof (cases "r = ''..''")
          case True
          with dots Cons show ?thesis
            using IH [of "''..'' # res"] IH [of res] by (cases allow) simp_all
        next
          case False
          with dots Cons show ?thesis using IH [of rs] by simp
        qed
      qed
    next
      case other: False
      with False show ?thesis using IH [of "s # res"] by simp
    qed
  qed
qed

lemma nf_False_iff: "nf False xs = list_all (\<lambda>s. s \<noteq> [] \<and> s \<noteq> ''.'' \<and> s \<noteq> ''..'') xs"
  by (induction xs) auto

lemma nf_True_undotted:
  "nf True xs \<Longrightarrow> ''..'' \<notin> set xs \<Longrightarrow> nf False xs"
  by (induction xs) (auto split: if_splits)

lemma normalizeString_bottom:
  "\<exists>rest. normalizeString True (res @ [''..'']) ss = ''..'' # rest"
proof (induction ss arbitrary: res)
  case Nil
  then show ?case by simp
next
  case (Cons s ss)
  note IH = Cons.IH
  show ?case
  proof (cases "s = [] \<or> s = ''.''")
    case True
    then show ?thesis using IH [of res] by auto
  next
    case False
    show ?thesis
    proof (cases "s = ''..''")
      case dots: True
      show ?thesis
      proof (cases res)
        case Nil
        with dots show ?thesis using IH [of "[''..'']"] by simp
      next
        case (Cons r rs)
        show ?thesis
        proof (cases "r = ''..''")
          case True
          with dots Cons show ?thesis using IH [of "''..'' # res"] by simp
        next
          case False
          with dots Cons show ?thesis using IH [of rs] by simp
        qed
      qed
    next
      case other: False
      with False show ?thesis using IH [of "s # res"] by simp
    qed
  qed
qed

lemma normalizeString_frame:
  assumes "nf False (rev res)" "nf False (normalizeString True res ss)"
  shows "normalizeString allow (res @ base) ss = rev base @ normalizeString True res ss"
  using assms
proof (induction ss arbitrary: res)
  case Nil
  then show ?case by simp
next
  case (Cons s ss)
  note IH = Cons.IH and prems = Cons.prems
  show ?case
  proof (cases "s = [] \<or> s = ''.''")
    case True
    with prems IH [of res] show ?thesis by auto
  next
    case False
    show ?thesis
    proof (cases "s = ''..''")
      case dots: True
      show ?thesis
      proof (cases res)
        case Nil
        with dots prems(2) have "nf False (normalizeString True ([] @ [''..'']) ss)" by simp
        moreover obtain rest where "normalizeString True ([] @ [''..'']) ss = ''..'' # rest"
          using normalizeString_bottom by blast
        ultimately show ?thesis by simp
      next
        case (Cons r rs)
        with prems(1) have r: "r \<noteq> ''..''" and rs: "nf False (rev rs)"
          by (simp_all add: nf_False_iff)
        from r dots Cons prems(2) have "nf False (normalizeString True rs ss)" by simp
        from IH [OF rs this] r dots Cons show ?thesis by simp
      qed
    next
      case other: False
      with False prems(1) have 1: "nf False (rev (s # res))" by (simp add: nf_False_iff)
      from False other prems(2) have 2: "nf False (normalizeString True (s # res) ss)" by simp
      from IH [OF 1 2] False other show ?thesis by simp
    qed
  qed
qed

lemma join_sep_append:
  "xs \<noteq> [] \<Longrightarrow> ys \<noteq> [] \<Longrightarrow> join_sep (xs @ ys) = join_sep xs @ ''/'' @ join_sep ys"
proof (induction xs rule: join_sep.induct)
  case 1
  then show ?case by simp
next
  case (2 s)
  then show ?case by (cases ys) simp_all
next
  case (3 s t ss)
  then show ?case by simp
qed

lemma path_join_normalized: "path_normalize (path_join args) = path_join args"
  by (simp add: path_join_def Let_def path_normalize_idem)
     (simp add: path_normalize_def is_slash_def)

lemma segments_clean:
  "list_all (\<lambda>s. \<not> list_ex is_slash s) (normalizeString allow [] (split_on is_slash p))"
  by (rule normalizeString_pieces) (simp_all add: split_on_pieces is_slash_def)

lemma join_sep_ends:
  assumes "R \<noteq> []" "nf allow R" "list_all (\<lambda>s. \<not> list_ex is_slash s) R"
  shows "join_sep R \<noteq> []" "hd (join_sep R) \<noteq> CHR ''/''" "last (join_sep R) \<noteq> CHR ''/''"
proof -
  have ne: "list_all (\<lambda>s. s \<noteq> []) R" using assms(2) by (rule nf_nonempty)
  with assms(1) have q: "join_sep R \<noteq> []" "hd (join_sep R) = hd (hd R)"
    "last (join_sep R) = last (last R)"
    by (simp_all add: join_sep_hd join_sep_last)
  from assms(1,3) ne have "hd R \<noteq> []" "\<not> list_ex is_slash (hd R)" "last R \<noteq> []"
    "\<not> list_ex is_slash (last R)"
    using list_all_hd_last [of R "\<lambda>s. s \<noteq> []"] list_all_hd_last [of R "\<lambda>s. \<not> list_ex is_slash s"]
    by simp_all
  then show "join_sep R \<noteq> []" "hd (join_sep R) \<noteq> CHR ''/''" "last (join_sep R) \<noteq> CHR ''/''"
    using not_slash_hd_last [of "hd R"] not_slash_hd_last [of "last R"] q by auto
qed

text \<open>A name whose normalised segments \<open>T\<close> are not empty and do not start with \<^verbatim>\<open>..\<close> is
  joined below the directory: the result is the directory, a slash, and \<open>T\<close>.\<close>

lemma path_join_under:
  assumes root: "root \<noteq> []" "last root \<noteq> CHR ''/''" "root \<noteq> ''.''" "path_normalize root = root"
    and name: "name \<noteq> []" "last name \<noteq> CHR ''/''"
    and T: "nf False (normalizeString True [] (split_on is_slash name))"
      "normalizeString True [] (split_on is_slash name) \<noteq> []"
  shows "path_join [root, name] =
           root @ ''/'' @ join_sep (normalizeString True [] (split_on is_slash name))"
proof -
  define ab where "ab = (hd root = CHR ''/'')"
  define N where "N = normalizeString (\<not> ab) [] (split_on is_slash root)"
  define T where "T = normalizeString True [] (split_on is_slash name)"
  have nfN: "nf (\<not> ab) N" unfolding N_def by (rule nf_normalizeString) simp
  have slN: "list_all (\<lambda>s. \<not> list_ex is_slash s) N" unfolding N_def by (rule segments_clean)
  have slT: "list_all (\<lambda>s. \<not> list_ex is_slash s) T" unfolding T_def by (rule segments_clean)
  have nfT: "nf False T" and neT: "T \<noteq> []" using T by (simp_all add: T_def)
  have "path_normalize root =
      (if join_sep N = [] then (if ab then ''/'' else ''.'') else (if ab then ''/'' else []) @ join_sep N)"
    using root(1,2) by (simp add: path_normalize_def Let_def ab_def N_def)
  with root(4) have form: "root =
      (if join_sep N = [] then (if ab then ''/'' else ''.'') else (if ab then ''/'' else []) @ join_sep N)"
    by simp
  have qN: "join_sep N \<noteq> []"
  proof
    assume "join_sep N = []"
    with form have "root = (if ab then ''/'' else ''.'')" by simp
    with root(2,3) show False by (cases ab) simp_all
  qed
  then have neN: "N \<noteq> []" by auto
  from form qN have rootform: "(if ab then ''/'' else []) @ join_sep N = root" by simp
  let ?p = "root @ CHR ''/'' # name"
  have pj: "path_join [root, name] = path_normalize ?p"
    using root(1) name(1) by (simp add: path_join_def)
  have h: "(hd ?p = CHR ''/'') = ab" using root(1) by (simp add: ab_def hd_append)
  have l: "last ?p \<noteq> CHR ''/''" using name by simp
  have "split_on is_slash ?p = split_on is_slash root @ split_on is_slash name"
    by (rule split_on_append) (rule is_slash_slash)
  then have "normalizeString (\<not> ab) [] (split_on is_slash ?p) =
      normalizeString (\<not> ab) (rev N) (split_on is_slash name)"
    by (simp add: normalizeString_append N_def)
  also have "\<dots> = N @ T"
    using normalizeString_frame [of "[]" "split_on is_slash name" "\<not> ab" "rev N"] nfT
    by (simp add: T_def)
  finally have sp: "normalizeString (\<not> ab) [] (split_on is_slash ?p) = N @ T" .
  have j: "join_sep (N @ T) = join_sep N @ ''/'' @ join_sep T"
    using neN neT by (rule join_sep_append)
  have "path_normalize ?p = (if ab then ''/'' else []) @ join_sep (N @ T)"
    using h l sp j qN by (simp add: path_normalize_def Let_def)
  also have "\<dots> = ((if ab then ''/'' else []) @ join_sep N) @ ''/'' @ join_sep T"
    by (simp add: j)
  also have "\<dots> = root @ ''/'' @ join_sep T" by (simp only: rootform)
  finally show ?thesis by (simp add: pj T_def)
qed

lemma split_on_word: "split_on is_slash ''uploads'' = [''uploads'']"
  by (simp add: is_slash_def)

lemma uploadsDir_ends: "\<exists>pre. uploadsDir e = pre @ ''uploads''"
proof -
  define J where "J = join_sep (filter (\<lambda>a. a \<noteq> []) [script_dir e, ''uploads''])"
  define ab where "ab = (hd J = CHR ''/'')"
  have J: "J = (if script_dir e = [] then ''uploads'' else script_dir e @ CHR ''/'' # ''uploads'')"
    by (simp add: J_def)
  have neJ: "J \<noteq> []" and lastJ: "last J \<noteq> CHR ''/''" by (simp_all add: J)
  have sp: "\<exists>X. split_on is_slash J = X @ [''uploads'']"
  proof (cases "script_dir e = []")
    case True
    with J show ?thesis using split_on_word by auto
  next
    case False
    with J have "split_on is_slash J = split_on is_slash (script_dir e) @ split_on is_slash ''uploads''"
      by (simp add: split_on_append is_slash_slash)
    then have "split_on is_slash J = split_on is_slash (script_dir e) @ [''uploads'']"
      by (simp only: split_on_word)
    then show ?thesis by blast
  qed
  then obtain X where X: "split_on is_slash J = X @ [''uploads'']" by blast
  have N: "normalizeString (\<not> ab) [] (split_on is_slash J) =
      normalizeString (\<not> ab) [] X @ [''uploads'']"
    unfolding X by (subst normalizeString_append) simp
  have "\<exists>pre. join_sep (Y @ [''uploads'']) = pre @ ''uploads''" for Y
  proof (cases "Y = []")
    case True
    then show ?thesis by simp
  next
    case False
    then have "join_sep (Y @ [''uploads'']) = join_sep Y @ ''/'' @ join_sep [''uploads'']"
      by (rule join_sep_append) simp
    then show ?thesis by simp
  qed
  then obtain pre where pre: "join_sep (normalizeString (\<not> ab) [] X @ [''uploads'']) = pre @ ''uploads''"
    by blast
  have "uploadsDir e = path_normalize J"
    using neJ by (simp add: uploadsDir_def path_join_def J_def Let_def)
  also have "\<dots> = (if ab then ''/'' else []) @ pre @ ''uploads''"
    using neJ lastJ N pre by (simp add: path_normalize_def Let_def ab_def)
  finally show ?thesis by (metis append.assoc)
qed

lemma uploadsDir_shape:
  "uploadsDir e \<noteq> []" "last (uploadsDir e) \<noteq> CHR ''/''" "uploadsDir e \<noteq> ''.''"
  "path_normalize (uploadsDir e) = uploadsDir e"
proof -
  obtain pre where "uploadsDir e = pre @ ''uploads''" using uploadsDir_ends by blast
  then show "uploadsDir e \<noteq> []" "last (uploadsDir e) \<noteq> CHR ''/''" "uploadsDir e \<noteq> ''.''"
    by simp_all
  show "path_normalize (uploadsDir e) = uploadsDir e"
    unfolding uploadsDir_def by (rule path_join_normalized)
qed

lemma startsWith_append: "startsWith (pre @ rest) pre"
  by (simp add: startsWith_def)

lemma upload_path_inside:
  assumes "name \<noteq> []" "last name \<noteq> CHR ''/''"
    and "nf False (normalizeString True [] (split_on is_slash name))"
      "normalizeString True [] (split_on is_slash name) \<noteq> []"
  shows "inside (uploadsDir e) (path_join [uploadsDir e, name])"
proof -
  have "path_join [uploadsDir e, name] =
      (uploadsDir e @ ''/'') @ join_sep (normalizeString True [] (split_on is_slash name))"
    using path_join_under [OF uploadsDir_shape assms] by simp
  then show ?thesis unfolding inside_def by (simp only: startsWith_append)
qed

section \<open>Routing, and the base64 route\<close>

lemma string_of_nat_small: "n < 10 \<Longrightarrow> string_of_nat n = [''0123456789'' ! n]"
  by (simp add: string_of_nat.simps)

lemma string_of_nat_big:
  "\<not> n < 10 \<Longrightarrow> string_of_nat n = string_of_nat (n div 10) @ [''0123456789'' ! (n mod 10)]"
  by (subst string_of_nat.simps) simp

lemma uploadsDir_env0: "uploadsDir env0 = ''/app/uploads''"
  by (simp add: uploadsDir_def env0_def path_join_def path_normalize_def is_slash_def)

lemma string_of_now_env0: "string_of_nat (now env0) = ''1700000000123''"
  by (simp add: env0_def string_of_nat_small string_of_nat_big)

lemma not_mounted:
  assumes "take (length ''/uploads'') (map to_lower p) \<noteq> ''/uploads''"
  shows "mounted p = None"
proof -
  have "map to_lower (take (length ''/uploads'') p) \<noteq> ''/uploads''"
    using assms by (simp add: take_map)
  then show ?thesis by (simp add: mounted_def)
qed

lemma not_mounted_route:
  assumes "route_match pattern p"
    and "take (length ''/uploads'') pattern \<noteq> ''/uploads''"
    and "take (length ''/uploads'') (pattern @ ''/'') \<noteq> ''/uploads''"
  shows "mounted p = None"
proof (rule not_mounted)
  from assms(1) have "map to_lower p = pattern \<or> map to_lower p = pattern @ ''/''"
    by (auto simp: route_match_def)
  with assms(2,3) show "take (length ''/uploads'') (map to_lower p) \<noteq> ''/uploads''"
    by auto
qed

lemma serve_static_not_mounted: "mounted (rpath req) = None \<Longrightarrow> serve_static e fs req = None"
  by (simp add: serve_static_def)

lemma app_base64:
  assumes "rmethod req = POST" "route_match ''/api/screenshot/base64'' (rpath req)"
    "parser_outcome req = Inr b"
  shows "app e fs req = base64_handler e fs b"
proof -
  have "mounted (rpath req) = None" using assms(2) by (rule not_mounted_route) simp_all
  then have "serve_static e fs req = None" by (rule serve_static_not_mounted)
  moreover have "\<not> route_match ''/api/screenshot'' (rpath req)"
    using assms(2) by (auto simp: route_match_def)
  ultimately show ?thesis using assms by (simp add: app_def is_get_def)
qed

lemma app_screenshot:
  assumes "rmethod req = POST" "route_match ''/api/screenshot'' (rpath req)"
    "parser_outcome req = Inr b"
  shows "app e fs req = post_screenshot e fs b req"
proof -
  have "mounted (rpath req) = None" using assms(2) by (rule not_mounted_route) simp_all
  then have "serve_static e fs req = None" by (rule serve_static_not_mounted)
  then show ?thesis using assms by (simp add: app_def is_get_def)
qed

lemma get_prop_not_nullish: "get_prop b k = JStr s \<Longrightarrow> \<not> is_nullish b"
  by (cases b) simp_all

text \<open>
  C10. The presence check of the base64 route is a truthiness test: a request whose
  \<^verbatim>\<open>image\<close> field is the empty string is answered 400 with the error
  \<^verbatim>\<open>No image data received\<close> and leaves the file system as it is, exactly like a request
  whose body has no \<^verbatim>\<open>image\<close> field.
\<close>

theorem c10_empty_image_rejected:
  assumes "rmethod req = POST" "route_match ''/api/screenshot/base64'' (rpath req)"
    and "parser_outcome req = Inr b" "get_prop b ''image'' = JStr []"
    and "rmethod req' = POST" "route_match ''/api/screenshot/base64'' (rpath req')"
    and "parser_outcome req' = Inr b'" "\<not> is_nullish b'" "get_prop b' ''image'' = JUndefined"
  shows "app e fs req =
           (fs, \<lparr>status = 400,
                 body = Json (JObj [(''success'', JBool False),
                                    (''error'', JStr ''No image data received'')])\<rparr>)
         \<and> app e fs req = app e fs req'"
proof -
  have "\<not> is_nullish b" using assms(4) by (rule get_prop_not_nullish)
  with assms show ?thesis
    by (simp add: app_base64 [of req _ e fs] app_base64 [of req' _ e fs] base64_handler_def)
qed

theorem c10_empty_image_rejected_witness:
  "app env0 fs0 (json_request POST ''/api/screenshot/base64'' (JObj [(''image'', JStr [])])) =
     (fs0, \<lparr>status = 400,
            body = Json (JObj [(''success'', JBool False),
                               (''error'', JStr ''No image data received'')])\<rparr>)
   \<and> app env0 fs0 (json_request POST ''/api/screenshot/base64'' (JObj [(''image'', JStr [])])) =
     app env0 fs0 (json_request POST ''/api/screenshot/base64'' (JObj [(''filename'', JStr ''a.png'')]))"
proof -
  have r: "route_match ''/api/screenshot/base64'' ''/api/screenshot/base64''"
    by (simp add: route_match_def to_lower_def)
  show ?thesis
    by (rule c10_empty_image_rejected
          [where b = "JObj [(''image'', JStr [])]" and b' = "JObj [(''filename'', JStr ''a.png'')]"])
       (simp_all add: json_request_def r)
qed

lemma write_ok:
  "writeFileSync fs p bytes = Inr fs' \<Longrightarrow>
     fs' = fs\<lparr>files := (files fs)(p \<mapsto> bytes)\<rparr> \<and> p \<notin> dirs fs"
  by (auto simp: writeFileSync_def split: if_splits option.splits)

lemma write_files: "writeFileSync fs p bytes = Inr fs' \<Longrightarrow> files fs' p = Some bytes"
  by (auto dest: write_ok)

lemma write_dirs: "writeFileSync fs p bytes = Inr fs' \<Longrightarrow> dirs fs' = dirs fs \<and> p \<notin> dirs fs'"
  by (auto dest: write_ok)

lemma stat_after_write:
  "writeFileSync fs p bytes = Inr fs' \<Longrightarrow>
     statSync fs' p = Inr \<lparr>isDirectory = False, st_size = length bytes\<rparr>"
  by (auto dest: write_ok simp: statSync_def)

lemma base64_handler_string:
  assumes "get_prop b ''image'' = JStr s" "s \<noteq> []"
  shows "base64_handler e fs b =
    (case finalFilename e b of
       JStr name \<Rightarrow>
         (case writeFileSync fs (path_join [uploadsDir e, name]) (base64_decode (strip_data_url s)) of
            Inl fault \<Rightarrow> (fs, internal_server_error e (RuntimeError fault))
          | Inr fs' \<Rightarrow> (fs', uploaded name (length (base64_decode (strip_data_url s)))))
     | _ \<Rightarrow> (fs, internal_server_error e (RuntimeError ERR_INVALID_ARG_TYPE)))"
proof -
  have n: "\<not> is_nullish b" using assms(1) by (rule get_prop_not_nullish)
  show ?thesis
  proof (cases "finalFilename e b")
    case (JStr name)
    show ?thesis
    proof (cases "writeFileSync fs (path_join [uploadsDir e, name]) (base64_decode (strip_data_url s))")
      case (Inl fault)
      with JStr n assms show ?thesis
        by (simp add: base64_handler_def Let_def finalFilename_def)
    next
      case (Inr fs')
      with JStr n assms stat_after_write [OF Inr] show ?thesis
        by (simp add: base64_handler_def Let_def finalFilename_def)
    qed
  qed (use n assms in \<open>simp_all add: base64_handler_def Let_def finalFilename_def\<close>)
qed

lemma status_internal_server_error: "status (internal_server_error e err) = 500"
  by (simp add: internal_server_error_def)

lemma status_uploaded: "status (uploaded name n) = 200"
  by (simp add: uploaded_def)





lemma path_shot: "path_join [uploadsDir env0, ''shot.png''] = ''/app/uploads/shot.png''"
  by (simp add: uploadsDir_env0) (simp add: path_join_def path_normalize_def is_slash_def)

lemma path_evil: "path_join [uploadsDir env0, ''../evil.png''] = ''/app/evil.png''"
  by (simp add: uploadsDir_env0) (simp add: path_join_def path_normalize_def is_slash_def)

lemma write_shot:
  "writeFileSync fs0 ''/app/uploads/shot.png'' bytes =
     Inr (fs0\<lparr>files := (files fs0)(''/app/uploads/shot.png'' \<mapsto> bytes)\<rparr>)"
  by (simp add: writeFileSync_def fs0_def byte_length_def is_slash_def)

lemma write_evil:
  "writeFileSync fs0 ''/app/evil.png'' bytes =
     Inr (fs0\<lparr>files := (files fs0)(''/app/evil.png'' \<mapsto> bytes)\<rparr>)"
  by (simp add: writeFileSync_def fs0_def byte_length_def is_slash_def)

lemma decode_hello: "base64_decode ''aGVsbG8='' = [104, 101, 108, 108, 111]"
  by code_simp



lemma route_base64: "route_match ''/api/screenshot/base64'' ''/api/screenshot/base64''"
  by (simp add: route_match_def to_lower_def)

lemma route_screenshot: "route_match ''/api/screenshot'' ''/api/screenshot''"
  by (simp add: route_match_def to_lower_def)

lemma app_base64_json:
  "app e fs (json_request POST ''/api/screenshot/base64'' b) = base64_handler e fs b"
  by (rule app_base64) (simp_all add: json_request_def route_base64)



text \<open>
  C8. The base64 route joins the \<^verbatim>\<open>filename\<close> of the client onto the uploads directory as it
  is: with the name \<^verbatim>\<open>../evil.png\<close> the path is \<^verbatim>\<open>/app/evil.png\<close>, which is not inside
  \<^verbatim>\<open>/app/uploads\<close>, and the request writes that file and is answered with success.
\<close>

theorem c8_write_outside_uploads:
  "path_join [uploadsDir env0, ''../evil.png''] = ''/app/evil.png''
   \<and> \<not> inside (uploadsDir env0) ''/app/evil.png''
   \<and> app env0 fs0 (json_request POST ''/api/screenshot/base64'' traversal_body) =
       (fs0\<lparr>files := (files fs0)(''/app/evil.png'' \<mapsto> [104, 101, 108, 108, 111])\<rparr>,
        uploaded ''../evil.png'' 5)"
proof -
  have 1: "get_prop traversal_body ''image'' = JStr ''aGVsbG8=''" "''aGVsbG8='' \<noteq> []"
    by (simp_all add: traversal_body_def)
  have 2: "finalFilename env0 traversal_body = JStr ''../evil.png''"
    by (simp add: traversal_body_def finalFilename_def)
  have 3: "strip_data_url ''aGVsbG8='' = ''aGVsbG8=''"
    by (simp add: strip_data_url_def startsWith_def)
  have "base64_handler env0 fs0 traversal_body =
          (fs0\<lparr>files := (files fs0)(''/app/evil.png'' \<mapsto> [104, 101, 108, 108, 111])\<rparr>,
           uploaded ''../evil.png'' 5)"
    by (simp add: base64_handler_string [OF 1] 2 3 path_evil decode_hello write_evil uploaded_def)
  moreover have "\<not> inside (uploadsDir env0) ''/app/evil.png''"
    by (simp add: uploadsDir_env0 inside_def startsWith_def)
  ultimately show ?thesis by (simp add: app_base64_json path_evil)
qed




section \<open>The multipart route\<close>

lemma multer_nameless:
  "list_all (\<lambda>part. originalname part = []) parts \<Longrightarrow>
     multer_files e parts filesLeft stored fs = (fs, Inr stored)"
  by (induction parts) simp_all


lemma multer_unexpected:
  "originalname part \<noteq> [] \<Longrightarrow> fieldname part \<noteq> ''screenshot'' \<Longrightarrow>
     multer_files e (part # parts) filesLeft None fs = (fs, Inl (MulterError ''LIMIT_UNEXPECTED_FILE''))"
  by (simp add: abort_upload_def)


lemma multer_too_large:
  assumes "originalname part \<noteq> []" "fieldname part = ''screenshot''"
    and "startsWith (mimetype part) ''image/''" "fileSize \<le> length (content part)"
    and "writeFileSync fs (path_join [uploadsDir e, storage_filename e]) (take fileSize (content part)) = Inr fs1"
  shows "multer_files e (part # parts) (Suc 0) None fs =
           (unlink fs1 (path_join [uploadsDir e, storage_filename e]), Inl (MulterError ''LIMIT_FILE_SIZE''))"
  using assms by (simp add: abort_upload_def fileFilter_def Let_def)

lemma status_error_middleware: "status (error_middleware e err) \<noteq> 200"
  by (cases err) (simp_all add: error_middleware_def internal_server_error_def)

lemma status_no_file: "status (screenshot_handler e b h None) \<noteq> 200"
  by (simp add: screenshot_handler_def internal_server_error_def)

lemma storage_filename_env0: "storage_filename env0 = ''screenshot-1700000000123.png''"
  by (simp add: storage_filename_def string_of_now_env0)

lemma path_generated:
  "path_join [uploadsDir env0, ''screenshot-1700000000123.png''] =
     ''/app/uploads/screenshot-1700000000123.png''"
  by (simp add: uploadsDir_env0) (simp add: path_join_def path_normalize_def is_slash_def)

lemma write_generated:
  "writeFileSync fs0 ''/app/uploads/screenshot-1700000000123.png'' bytes =
     Inr (fs0\<lparr>files := (files fs0)(''/app/uploads/screenshot-1700000000123.png'' \<mapsto> bytes)\<rparr>)"
  by (simp add: writeFileSync_def fs0_def byte_length_def is_slash_def)

lemma app_screenshot_multipart:
  "app e fs (multipart_request ''/api/screenshot'' parts) =
     post_screenshot e fs (JObj []) (multipart_request ''/api/screenshot'' parts)"
  by (rule app_screenshot) (simp_all add: multipart_request_def route_screenshot)

lemma multipart_of_request:
  "multipart (multipart_request p parts) = Some ([(''note'', JStr ''hello'')], parts)"
  by (simp add: multipart_request_def)

text \<open>
  C3, as stated, fails: a request that carries a file, but in another field than
  \<^verbatim>\<open>screenshot\<close>, is refused by \<^verbatim>\<open>upload.single('screenshot')\<close> with \<^verbatim>\<open>LIMIT_UNEXPECTED_FILE\<close>, and
  the error middleware answers 500 with the message \<^verbatim>\<open>Unexpected field\<close>.
\<close>

theorem c3_other_field_counterexample:
  "fieldname avatar_part \<noteq> ''screenshot''
   \<and> app env0 fs0 (multipart_request ''/api/screenshot'' [avatar_part]) =
       (fs0, \<lparr>status = 500,
              body = Json (JObj [(''success'', JBool False),
                                 (''error'', JStr ''Internal server error''),
                                 (''message'', JStr ''Unexpected field'')])\<rparr>)"
proof -
  have "multer_files env0 [avatar_part] 1 None fs0 = (fs0, Inl (MulterError ''LIMIT_UNEXPECTED_FILE''))"
    by (rule multer_unexpected) (simp_all add: avatar_part_def)
  then show ?thesis
    by (simp add: app_screenshot_multipart post_screenshot_def upload_single_def multipart_of_request
        error_middleware_def internal_server_error_def avatar_part_def)
qed

text \<open>
  C3, amended. For every multipart request to \<^verbatim>\<open>POST /api/screenshot\<close> that carries no file at
  all (no part with a file name, in any field), the response has status 400 and a body
  with \<^verbatim>\<open>success: false\<close> that echoes the received body (the text fields) and headers, and
  the file system is unchanged.
\<close>

theorem c3_no_file_is_400:
  assumes "rmethod req = POST" "route_match ''/api/screenshot'' (rpath req)"
    and "parser_outcome req = Inr b"
    and "multipart req = Some (text_fields, parts)"
    and "list_all (\<lambda>part. originalname part = []) parts"
  shows "app e fs req =
    (fs, \<lparr>status = 400,
          body = Json (JObj [(''success'', JBool False),
                             (''error'', JStr ''No file received''),
                             (''received'',
                                JObj [(''body'', JObj text_fields),
                                      (''headers'', JObj (map (\<lambda>(k, v). (k, JStr v)) (headers req)))])])\<rparr>)"
proof -
  have "app e fs req = post_screenshot e fs b req" using assms(1-3) by (rule app_screenshot)
  moreover have "multer_files e parts 1 None fs = (fs, Inr None)"
    using assms(5) by (rule multer_nameless)
  ultimately show ?thesis
    using assms(4) by (simp add: post_screenshot_def upload_single_def screenshot_handler_def)
qed

theorem c3_no_file_is_400_witness:
  "multipart (multipart_request ''/api/screenshot'' [nameless_part]) =
     Some ([(''note'', JStr ''hello'')], [nameless_part])
   \<and> list_all (\<lambda>part. originalname part = []) [nameless_part]
   \<and> app env0 fs0 (multipart_request ''/api/screenshot'' [nameless_part]) =
    (fs0, \<lparr>status = 400,
          body = Json (JObj [(''success'', JBool False),
                             (''error'', JStr ''No file received''),
                             (''received'',
                                JObj [(''body'', JObj [(''note'', JStr ''hello'')]),
                                      (''headers'', JObj [(''content-type'', JStr ''multipart/form-data'')])])])\<rparr>)"
proof -
  let ?req = "multipart_request ''/api/screenshot'' [nameless_part]"
  have 1: "rmethod ?req = POST" "route_match ''/api/screenshot'' (rpath ?req)"
    "parser_outcome ?req = Inr (JObj [])"
    by (simp_all add: multipart_request_def route_screenshot)
  have 2: "multipart ?req = Some ([(''note'', JStr ''hello'')], [nameless_part])"
    by (rule multipart_of_request)
  have 3: "list_all (\<lambda>part. originalname part = []) [nameless_part]"
    by (simp add: nameless_part_def)
  have 4: "headers ?req = [(''content-type'', ''multipart/form-data'')]"
    by (simp add: multipart_request_def)
  from c3_no_file_is_400 [OF 1 2 3, of env0 fs0] 2 3 4 show ?thesis by simp
qed







section \<open>File names, and what a successful upload has written\<close>

lemma not_plain_chars:
  "\<not> plain_char CHR ''/''" "\<not> plain_char CHR ''%''" "\<not> plain_char (CHR 0x00)"
  "\<not> plain_char (CHR 0x5C)" "\<not> plain_char CHR ''?''" "\<not> plain_char CHR ''#''"
  by (simp_all add: plain_char_def is_lower_def is_upper_def is_digit_def)

lemma plain_name_chars:
  assumes "plain_name name"
  shows "CHR ''/'' \<notin> set name" "CHR ''%'' \<notin> set name" "CHR 0x00 \<notin> set name"
    "CHR 0x5C \<notin> set name" "CHR ''?'' \<notin> set name" "CHR ''#'' \<notin> set name"
  using assms not_plain_chars by (auto simp: plain_name_def list_all_iff)

lemma plain_name_shape:
  assumes "plain_name name"
  shows "name \<noteq> []" "hd name \<noteq> CHR ''.''" "name \<noteq> ''.''" "name \<noteq> ''..''"
    "last name \<noteq> CHR ''/''" "hd name \<noteq> CHR ''/''"
proof -
  from assms show "name \<noteq> []" "hd name \<noteq> CHR ''.''" by (simp_all add: plain_name_def)
  then show "name \<noteq> ''.''" "name \<noteq> ''..''" by auto
  from \<open>name \<noteq> []\<close> have "last name \<in> set name" "hd name \<in> set name" by simp_all
  with plain_name_chars(1) [OF assms] show "last name \<noteq> CHR ''/''" "hd name \<noteq> CHR ''/''"
    by auto
qed

lemma digits_string_of_nat: "list_all is_digit (string_of_nat n)"
proof (induction n rule: string_of_nat.induct)
  case (1 n)
  have d: "is_digit (''0123456789'' ! k)" if "k < 10" for k
    unfolding is_digit_def using that by (intro nth_mem) simp
  show ?case
  proof (cases "n < 10")
    case True
    with d [of n] show ?thesis by (simp add: string_of_nat_small)
  next
    case False
    with 1 d [of "n mod 10"] show ?thesis by (simp add: string_of_nat_big)
  qed
qed

lemma plain_generated: "plain_name (''screenshot-'' @ string_of_nat n @ ''.png'')"
proof -
  have "list_all plain_char (string_of_nat n)"
    using digits_string_of_nat [of n] by (simp add: list_all_iff plain_char_def)
  then show ?thesis
    by (simp add: plain_name_def) (simp add: plain_char_def is_lower_def)
qed

lemma plain_storage_filename: "plain_name (storage_filename e)"
  unfolding storage_filename_def by (rule plain_generated)

lemma uri_decode_plain: "CHR ''%'' \<notin> set s \<Longrightarrow> uri_decode s = Some s"
  by (induction s) auto

lemma plain_segments:
  assumes "plain_name name"
  shows "normalizeString True [] (split_on is_slash name) = [name]"
proof -
  have "\<not> list_ex is_slash name"
    using plain_name_chars(1) [OF assms] by (simp add: list_ex_iff is_slash_def)
  then have "split_on is_slash name = [name]" by (rule split_on_single)
  with plain_name_shape [OF assms] show ?thesis by simp
qed

lemma up_path_plain: "plain_name name \<Longrightarrow> \<not> up_path name"
proof -
  assume p: "plain_name name"
  have "\<not> list_ex (\<lambda>c. c = CHR ''/'' \<or> c = CHR 0x5C) name"
    using plain_name_chars(1,4) [OF p] by (auto simp: list_ex_iff)
  then have "split_on (\<lambda>c. c = CHR ''/'' \<or> c = CHR 0x5C) name = [name]"
    by (rule split_on_single)
  with plain_name_shape(4) [OF p] show ?thesis by (simp add: up_path_def)
qed

lemma servable_plain:
  assumes "plain_name name"
  shows "servable name"
proof -
  note sh = plain_name_shape [OF assms] and ch = plain_name_chars [OF assms]
  have "\<not> containsDotFile [name]" using sh by (simp add: containsDotFile_def)
  then show ?thesis
    using ch(3) up_path_plain [OF assms]
    by (simp add: servable_def plain_segments [OF assms])
qed

lemma servable_segments:
  assumes "servable name"
  shows "name \<noteq> []"
    "nf False (normalizeString True [] (split_on is_slash name))"
    "normalizeString True [] (split_on is_slash name) \<noteq> []"
proof -
  let ?T = "normalizeString True [] (split_on is_slash name)"
  from assms show "?T \<noteq> []" by (simp add: servable_def Let_def)
  then show "name \<noteq> []" by auto
  have "nf True ?T" by (rule nf_normalizeString) simp
  moreover have "''..'' \<notin> set ?T"
  proof
    assume "''..'' \<in> set ?T"
    then have "containsDotFile ?T"
      by (auto simp: containsDotFile_def list_ex_iff intro!: bexI [of _ "''..''"])
    with assms show False by (simp add: servable_def Let_def)
  qed
  ultimately show "nf False ?T" by (rule nf_True_undotted)
qed

lemma stays_inside_segments:
  assumes "stays_inside name"
  shows "name \<noteq> []"
    "nf False (normalizeString True [] (split_on is_slash name))"
    "normalizeString True [] (split_on is_slash name) \<noteq> []"
proof -
  let ?T = "normalizeString True [] (split_on is_slash name)"
  from assms obtain s ss where T: "?T = s # ss" "s \<noteq> ''..''"
    by (auto simp: stays_inside_def split: list.splits)
  then show "?T \<noteq> []" by simp
  have "nf True ?T" by (rule nf_normalizeString) simp
  with T show "nf False ?T" by simp
  from assms show "name \<noteq> []" by (auto simp: stays_inside_def)
qed

lemma path_join_trailing:
  assumes "root \<noteq> []" "name \<noteq> []" "last name = CHR ''/''"
  shows "last (path_join [root, name]) = CHR ''/''"
proof -
  have "path_join [root, name] = path_normalize (root @ CHR ''/'' # name)"
    using assms by (simp add: path_join_def)
  moreover have "last (path_normalize (root @ CHR ''/'' # name)) = CHR ''/''"
    using assms by (simp add: path_normalize_def Let_def)
  ultimately show ?thesis by simp
qed

lemma write_path:
  "writeFileSync fs p bytes = Inr fs' \<Longrightarrow> last p \<noteq> CHR ''/'' \<and> CHR 0x00 \<notin> set p"
  by (auto simp: writeFileSync_def split: if_splits option.splits)

lemma written_name:
  assumes "writeFileSync fs (path_join [uploadsDir e, name]) bytes = Inr fs'" "name \<noteq> []"
  shows "last name \<noteq> CHR ''/''"
proof
  assume "last name = CHR ''/''"
  with assms(2) have "last (path_join [uploadsDir e, name]) = CHR ''/''"
    using uploadsDir_shape(1) by (intro path_join_trailing)
  with write_path [OF assms(1)] show False by simp
qed

lemma multer_done:
  "multer_files e parts 0 stored fs = (fs', Inr res) \<Longrightarrow> fs' = fs \<and> res = stored"
proof (induction parts)
  case Nil
  then show ?case by simp
next
  case (Cons part parts)
  then show ?case by (cases "originalname part = []") (simp_all add: abort_upload_def)
qed

lemma multer_one:
  assumes "multer_files e parts (Suc 0) None fs = (fs', Inr (Some f))"
  shows "\<exists>part. part \<in> set parts \<and> originalname part \<noteq> []
           \<and> writeFileSync fs (path_join [uploadsDir e, storage_filename e]) (content part) = Inr fs'
           \<and> file_filename f = storage_filename e \<and> file_size f = length (content part)
           \<and> length (content part) < fileSize"
  using assms
proof (induction parts)
  case Nil
  then show ?case by simp
next
  case (Cons part parts)
  let ?p = "path_join [uploadsDir e, storage_filename e]"
  show ?case
  proof (cases "originalname part = []")
    case True
    with Cons.prems have "multer_files e parts (Suc 0) None fs = (fs', Inr (Some f))" by simp
    from Cons.IH [OF this] show ?thesis by auto
  next
    case named: False
    show ?thesis
    proof (cases "fieldname part = ''screenshot'' \<and> startsWith (mimetype part) ''image/''")
      case False
      with named Cons.prems show ?thesis
        by (auto simp: abort_upload_def fileFilter_def split: if_splits)
    next
      case ok: True
      let ?w = "take fileSize (content part)"
      let ?f = "\<lparr>file_filename = storage_filename e, file_path = ?p,
                 file_mimetype = mimetype part, file_size = length ?w\<rparr>"
      show ?thesis
      proof (cases "writeFileSync fs ?p ?w")
        case (Inl fault)
        with named ok Cons.prems show ?thesis
          by (simp add: abort_upload_def fileFilter_def Let_def)
      next
        case (Inr fs1)
        show ?thesis
        proof (cases "fileSize \<le> length (content part)")
          case True
          with named ok Inr Cons.prems show ?thesis
            by (simp add: abort_upload_def fileFilter_def Let_def)
        next
          case False
          then have w: "?w = content part" by simp
          from False named ok Inr Cons.prems
          have "multer_files e parts 0 (Some ?f) fs1 = (fs', Inr (Some f))"
            by (simp add: fileFilter_def Let_def)
          from multer_done [OF this] have "fs' = fs1" "f = ?f" by simp_all
          with Inr w named False show ?thesis by auto
        qed
      qed
    qed
  qed
qed

lemma post_screenshot_written:
  assumes "status (snd (post_screenshot e fs b req)) = 200"
  shows "\<exists>bytes.
           writeFileSync fs (path_join [uploadsDir e, storage_filename e]) bytes =
             Inr (fst (post_screenshot e fs b req))
           \<and> snd (post_screenshot e fs b req) = uploaded (storage_filename e) (length bytes)
           \<and> length bytes < fileSize"
proof (cases "multipart req")
  case None
  with assms show ?thesis
    by (simp add: post_screenshot_def upload_single_def status_no_file)
next
  case (Some m)
  obtain text_fields parts where m: "m = (text_fields, parts)" by (cases m)
  obtain fs' res where r: "multer_files e parts 1 None fs = (fs', res)"
    by (cases "multer_files e parts 1 None fs")
  show ?thesis
  proof (cases res)
    case (Inl err)
    with Some m r assms show ?thesis
      by (simp add: post_screenshot_def upload_single_def status_error_middleware)
  next
    case (Inr stored)
    show ?thesis
    proof (cases stored)
      case None
      with Some m r Inr assms show ?thesis
        by (simp add: post_screenshot_def upload_single_def status_no_file)
    next
      case (Some f)
      with r Inr have "multer_files e parts (Suc 0) None fs = (fs', Inr (Some f))" by simp
      from multer_one [OF this] obtain part :: file_part where
        "writeFileSync fs (path_join [uploadsDir e, storage_filename e]) (content part) = Inr fs'"
        "file_filename f = storage_filename e" "file_size f = length (content part)"
        "length (content part) < fileSize"
        by blast
      with \<open>multipart req = Some m\<close> m r Inr Some show ?thesis
        by (auto simp: post_screenshot_def upload_single_def screenshot_handler_def)
    qed
  qed
qed

lemma base64_handler_written:
  assumes "status (snd (base64_handler e fs b)) = 200"
  shows "\<exists>name bytes. finalFilename e b = JStr name \<and> name \<noteq> []
           \<and> writeFileSync fs (path_join [uploadsDir e, name]) bytes = Inr (fst (base64_handler e fs b))
           \<and> snd (base64_handler e fs b) = uploaded name (length bytes)"
proof (cases "is_nullish b")
  case True
  with assms show ?thesis by (simp add: base64_handler_def status_internal_server_error)
next
  case nn: False
  show ?thesis
  proof (cases "get_prop b ''image''")
    case (JStr s)
    show ?thesis
    proof (cases "s = []")
      case True
      with nn JStr assms show ?thesis by (simp add: base64_handler_def)
    next
      case False
      note h = base64_handler_string [OF JStr False, of e fs]
      show ?thesis
      proof (cases "finalFilename e b")
        case name: (JStr name)
        have ne: "name \<noteq> []"
          using name by (auto simp: finalFilename_def split: if_splits)
        show ?thesis
        proof (cases "writeFileSync fs (path_join [uploadsDir e, name]) (base64_decode (strip_data_url s))")
          case (Inl fault)
          with name h assms show ?thesis by (simp add: status_internal_server_error)
        next
          case (Inr fs1)
          with name h ne show ?thesis by auto
        qed
      qed (use h assms in \<open>simp_all add: status_internal_server_error\<close>)
    qed
  qed (use nn assms in \<open>auto simp: base64_handler_def Let_def status_internal_server_error
         split: if_splits\<close>)
qed

lemma multer_stored:
  assumes "originalname part \<noteq> []" "fieldname part = ''screenshot''"
    and "startsWith (mimetype part) ''image/''" "length (content part) < fileSize"
    and "writeFileSync fs (path_join [uploadsDir e, storage_filename e]) (content part) = Inr fs1"
  shows "multer_files e [part] (Suc 0) None fs =
           (fs1, Inr (Some \<lparr>file_filename = storage_filename e,
                             file_path = path_join [uploadsDir e, storage_filename e],
                             file_mimetype = mimetype part,
                             file_size = length (content part)\<rparr>))"
proof -
  from assms(4) have "take fileSize (content part) = content part" by simp
  with assms show ?thesis by (simp add: fileFilter_def Let_def)
qed

lemma app_png_upload:
  "app env0 fs0 (multipart_request ''/api/screenshot'' [png_part]) =
     (fs0\<lparr>files := (files fs0)(''/app/uploads/screenshot-1700000000123.png'' \<mapsto> [137, 80, 78, 71])\<rparr>,
      uploaded ''screenshot-1700000000123.png'' 4)"
proof -
  have w: "writeFileSync fs0 (path_join [uploadsDir env0, storage_filename env0]) (content png_part) =
      Inr (fs0\<lparr>files := (files fs0)(''/app/uploads/screenshot-1700000000123.png'' \<mapsto> [137, 80, 78, 71])\<rparr>)"
    by (simp add: storage_filename_env0 path_generated write_generated png_part_def)
  have "multer_files env0 [png_part] (Suc 0) None fs0 =
      (fs0\<lparr>files := (files fs0)(''/app/uploads/screenshot-1700000000123.png'' \<mapsto> [137, 80, 78, 71])\<rparr>,
       Inr (Some \<lparr>file_filename = storage_filename env0,
                   file_path = path_join [uploadsDir env0, storage_filename env0],
                   file_mimetype = mimetype png_part,
                   file_size = length (content png_part)\<rparr>))"
    by (rule multer_stored [OF _ _ _ _ w]) (simp_all add: png_part_def startsWith_def fileSize_def)
  then have "upload_single env0 fs0 (JObj []) (multipart_request ''/api/screenshot'' [png_part]) =
      (fs0\<lparr>files := (files fs0)(''/app/uploads/screenshot-1700000000123.png'' \<mapsto> [137, 80, 78, 71])\<rparr>,
       Inr (JObj [(''note'', JStr ''hello'')],
            Some \<lparr>file_filename = storage_filename env0,
                   file_path = path_join [uploadsDir env0, storage_filename env0],
                   file_mimetype = mimetype png_part,
                   file_size = length (content png_part)\<rparr>))"
    by (simp add: upload_single_def multipart_of_request del: multer_files.simps)
  then show ?thesis
    by (simp add: app_screenshot_multipart post_screenshot_def screenshot_handler_def
        storage_filename_env0 png_part_def uploaded_def)
qed

lemma app_hello_upload:
  assumes "name \<noteq> []" "path_join [uploadsDir env0, name] = p"
    and "writeFileSync fs0 p [104, 101, 108, 108, 111] = Inr fs1"
  shows "app env0 fs0 (json_request POST ''/api/screenshot/base64''
             (JObj [(''image'', JStr ''aGVsbG8=''), (''filename'', JStr name)])) =
           (fs1, uploaded name 5)"
proof -
  let ?b = "JObj [(''image'', JStr ''aGVsbG8=''), (''filename'', JStr name)]"
  have 1: "get_prop ?b ''image'' = JStr ''aGVsbG8=''" "''aGVsbG8='' \<noteq> []" by simp_all
  have 2: "finalFilename env0 ?b = JStr name" using assms(1) by (simp add: finalFilename_def)
  have 3: "strip_data_url ''aGVsbG8='' = ''aGVsbG8=''"
    by (simp add: strip_data_url_def startsWith_def)
  show ?thesis
    by (simp add: app_base64_json base64_handler_string [OF 1] 2 3 assms(2,3) decode_hello
        uploaded_def)
qed

lemma app_shot_upload:
  "app env0 fs0 (json_request POST ''/api/screenshot/base64'' bare_body) =
     (fs0\<lparr>files := (files fs0)(''/app/uploads/shot.png'' \<mapsto> [104, 101, 108, 108, 111])\<rparr>,
      uploaded ''shot.png'' 5)"
  unfolding bare_body_def by (rule app_hello_upload [OF _ path_shot write_shot]) simp

lemma app_evil_upload:
  "app env0 fs0 (json_request POST ''/api/screenshot/base64'' traversal_body) =
     (fs0\<lparr>files := (files fs0)(''/app/evil.png'' \<mapsto> [104, 101, 108, 108, 111])\<rparr>,
      uploaded ''../evil.png'' 5)"
  unfolding traversal_body_def by (rule app_hello_upload [OF _ path_evil write_evil]) simp

text \<open>
  C1, as stated, fails for the base64 route: the \<^verbatim>\<open>filename\<close> of the client is joined onto
  the uploads directory as it is. With the name \<^verbatim>\<open>../evil.png\<close> the upload succeeds and
  reports the size 5, but the five bytes are in \<^verbatim>\<open>/app/evil.png\<close>, outside the storage root
  \<^verbatim>\<open>/app/uploads\<close>: it is the only file there is after the request, and the storage root
  holds none.
\<close>

theorem c1_outside_root_counterexample:
  "app env0 fs0 (json_request POST ''/api/screenshot/base64'' traversal_body) =
     (fs0\<lparr>files := (files fs0)(''/app/evil.png'' \<mapsto> [104, 101, 108, 108, 111])\<rparr>,
      uploaded ''../evil.png'' 5)
   \<and> get_prop (json_body (uploaded ''../evil.png'' 5)) ''size'' = JNum 5
   \<and> dom (files (fs0\<lparr>files := (files fs0)(''/app/evil.png'' \<mapsto> [104, 101, 108, 108, 111])\<rparr>)) =
       {''/app/evil.png''}
   \<and> uploadsDir env0 = ''/app/uploads''
   \<and> \<not> inside ''/app/uploads'' ''/app/evil.png''"
proof -
  have "get_prop (json_body (uploaded ''../evil.png'' 5)) ''size'' = JNum 5"
    by (simp add: json_body_def uploaded_def)
  moreover have "dom (files (fs0\<lparr>files := (files fs0)(''/app/evil.png'' \<mapsto> [104, 101, 108, 108, 111])\<rparr>)) =
      {''/app/evil.png''}"
    by (simp add: fs0_def)
  moreover have "\<not> inside ''/app/uploads'' ''/app/evil.png''"
    by (simp add: inside_def startsWith_def)
  ultimately show ?thesis using app_evil_upload uploadsDir_env0 by simp
qed

text \<open>
  C1, amended. For every successful upload, multipart or base64, the request has written
  exactly one file, at \<^verbatim>\<open>path.join(uploadsDir, filename)\<close> for the \<^verbatim>\<open>filename\<close> of the response (the
  file system is otherwise as before), and the \<^verbatim>\<open>size\<close> field of the response is the length
  in bytes of that file. The file lies in the storage root for every multipart upload, and
  for every base64 upload whose file name does not lead out of the directory (its normalised
  segments are not empty and do not start with \<^verbatim>\<open>..\<close>). The file of a successful multipart
  upload is smaller than 10 MiB.
\<close>

theorem c1_size_is_file_length:
  assumes "rmethod req = POST"
    and "route_match ''/api/screenshot'' (rpath req) \<or> route_match ''/api/screenshot/base64'' (rpath req)"
    and "parser_outcome req = Inr b"
    and "app e fs req = (fs', r)" "status r = 200"
  shows "\<exists>name bytes.
           fs' = fs\<lparr>files := (files fs)(path_join [uploadsDir e, name] \<mapsto> bytes)\<rparr>
           \<and> r = \<lparr>status = 200,
                   body = Json (JObj [(''success'', JBool True),
                                      (''filename'', JStr name),
                                      (''message'', JStr ''Screenshot uploaded successfully''),
                                      (''url'', JStr (''/uploads/'' @ name)),
                                      (''size'', JNum (int (length bytes)))])\<rparr>
           \<and> (route_match ''/api/screenshot'' (rpath req) \<or> stays_inside name
                \<longrightarrow> inside (uploadsDir e) (path_join [uploadsDir e, name]))
           \<and> (route_match ''/api/screenshot'' (rpath req) \<longrightarrow> length bytes < fileSize)"
proof -
  have "\<exists>name bytes. name \<noteq> []
          \<and> writeFileSync fs (path_join [uploadsDir e, name]) bytes = Inr fs'
          \<and> r = uploaded name (length bytes)
          \<and> (route_match ''/api/screenshot'' (rpath req)
                \<longrightarrow> stays_inside name \<and> length bytes < fileSize)"
  proof (cases "route_match ''/api/screenshot'' (rpath req)")
    case True
    have a: "app e fs req = post_screenshot e fs b req"
      using assms(1) True assms(3) by (rule app_screenshot)
    have p: "post_screenshot e fs b req = (fs', r)" using a assms(4) by simp
    with assms(5) have "status (snd (post_screenshot e fs b req)) = 200" by simp
    from post_screenshot_written [OF this] obtain bytes where
      "writeFileSync fs (path_join [uploadsDir e, storage_filename e]) bytes = Inr fs'"
      "r = uploaded (storage_filename e) (length bytes)"
      "length bytes < fileSize"
      by (auto simp: p)
    moreover have "storage_filename e \<noteq> []" "stays_inside (storage_filename e)"
      using plain_name_shape(1,4) [OF plain_storage_filename, of e]
      by (simp_all add: stays_inside_def plain_segments [OF plain_storage_filename])
    ultimately show ?thesis by blast
  next
    case False
    with assms(2) have "route_match ''/api/screenshot/base64'' (rpath req)" by simp
    with assms(1,3) have a: "app e fs req = base64_handler e fs b" by (simp add: app_base64)
    have p: "base64_handler e fs b = (fs', r)" using a assms(4) by simp
    with assms(5) have "status (snd (base64_handler e fs b)) = 200" by simp
    from base64_handler_written [OF this] False show ?thesis by (auto simp: p)
  qed
  then obtain name bytes where n: "name \<noteq> []"
    "writeFileSync fs (path_join [uploadsDir e, name]) bytes = Inr fs'"
    "r = uploaded name (length bytes)"
    "route_match ''/api/screenshot'' (rpath req)
       \<longrightarrow> stays_inside name \<and> length bytes < fileSize"
    by blast
  have 1: "fs' = fs\<lparr>files := (files fs)(path_join [uploadsDir e, name] \<mapsto> bytes)\<rparr>"
    using write_ok [OF n(2)] by simp
  have 2: "inside (uploadsDir e) (path_join [uploadsDir e, name])" if "stays_inside name"
    using n(1) written_name [OF n(2,1)] stays_inside_segments(2,3) [OF that]
    by (rule upload_path_inside)
  from 1 2 n(3,4) show ?thesis by (auto simp: uploaded_def)
qed

theorem c1_size_is_file_length_witness:
  "app env0 fs0 (multipart_request ''/api/screenshot'' [png_part]) =
     (fs0\<lparr>files := (files fs0)(''/app/uploads/screenshot-1700000000123.png'' \<mapsto> [137, 80, 78, 71])\<rparr>,
      uploaded ''screenshot-1700000000123.png'' 4)
   \<and> app env0 fs0 (json_request POST ''/api/screenshot/base64'' bare_body) =
     (fs0\<lparr>files := (files fs0)(''/app/uploads/shot.png'' \<mapsto> [104, 101, 108, 108, 111])\<rparr>,
      uploaded ''shot.png'' 5)
   \<and> stays_inside ''shot.png''
   \<and> inside (uploadsDir env0) (path_join [uploadsDir env0, ''screenshot-1700000000123.png''])
   \<and> inside (uploadsDir env0) (path_join [uploadsDir env0, ''shot.png''])"
proof -
  let ?m = "multipart_request ''/api/screenshot'' [png_part]"
  let ?j = "json_request POST ''/api/screenshot/base64'' bare_body"
  have 1: "rmethod ?m = POST"
    "route_match ''/api/screenshot'' (rpath ?m) \<or> route_match ''/api/screenshot/base64'' (rpath ?m)"
    "parser_outcome ?m = Inr (JObj [])"
    by (simp_all add: multipart_request_def route_screenshot)
  have 2: "rmethod ?j = POST"
    "route_match ''/api/screenshot'' (rpath ?j) \<or> route_match ''/api/screenshot/base64'' (rpath ?j)"
    "parser_outcome ?j = Inr bare_body"
    by (simp_all add: json_request_def route_base64)
  have 3: "status (uploaded name n) = 200" for name n by (rule status_uploaded)
  have 4: "stays_inside ''shot.png''" by (simp add: stays_inside_def is_slash_def)
  have 5: "route_match ''/api/screenshot'' (rpath ?m)"
    by (simp add: multipart_request_def route_screenshot)
  from c1_size_is_file_length [OF 1 app_png_upload 3] obtain name and bytes :: "byte list" where
    "uploaded ''screenshot-1700000000123.png'' 4 =
       \<lparr>status = 200,
        body = Json (JObj [(''success'', JBool True),
                           (''filename'', JStr name),
                           (''message'', JStr ''Screenshot uploaded successfully''),
                           (''url'', JStr (''/uploads/'' @ name)),
                           (''size'', JNum (int (length bytes)))])\<rparr>"
    "route_match ''/api/screenshot'' (rpath ?m) \<or> stays_inside name
       \<longrightarrow> inside (uploadsDir env0) (path_join [uploadsDir env0, name])"
    by blast
  with 5 have m: "inside (uploadsDir env0) (path_join [uploadsDir env0, ''screenshot-1700000000123.png''])"
    by (simp add: uploaded_def)
  from c1_size_is_file_length [OF 2 app_shot_upload 3] obtain name and bytes :: "byte list" where
    "uploaded ''shot.png'' 5 =
       \<lparr>status = 200,
        body = Json (JObj [(''success'', JBool True),
                           (''filename'', JStr name),
                           (''message'', JStr ''Screenshot uploaded successfully''),
                           (''url'', JStr (''/uploads/'' @ name)),
                           (''size'', JNum (int (length bytes)))])\<rparr>"
    "route_match ''/api/screenshot'' (rpath ?j) \<or> stays_inside name
       \<longrightarrow> inside (uploadsDir env0) (path_join [uploadsDir env0, name])"
    by blast
  with 4 have j: "inside (uploadsDir env0) (path_join [uploadsDir env0, ''shot.png''])"
    by (simp add: uploaded_def)
  from app_png_upload app_shot_upload 4 m j show ?thesis by simp
qed

lemma serve_static_unrouted: "\<not> routed req \<Longrightarrow> serve_static e fs req = None"
  by (auto simp: routed_def serve_static_def is_get_def split: option.splits)

text \<open>
  C7, as stated, fails: the \<^verbatim>\<open>cors\<close> middleware answers every \<^verbatim>\<open>OPTIONS\<close> request itself, with
  status 204 and no body, whatever the path; the 404 handler is never reached.
\<close>

theorem c7_options_counterexample:
  "\<not> routed (json_request OPTIONS ''/nowhere'' (JObj []))
   \<and> app env0 fs0 (json_request OPTIONS ''/nowhere'' (JObj [])) =
       (fs0, \<lparr>status = 204, body = NoBody\<rparr>)"
  by (simp add: app_def json_request_def routed_def is_get_def)

text \<open>
  C7, amended. For every request that is not an \<^verbatim>\<open>OPTIONS\<close> request, whose body the body
  parsers accept, and whose method and path match none of the four routes nor lie under
  the static mount \<^verbatim>\<open>/uploads\<close>, the response has status 404, and (unless the method is
  \<^verbatim>\<open>HEAD\<close>, which is answered without a body) its body has \<^verbatim>\<open>success: false\<close> and lists exactly
  the five documented endpoint strings. The file system is unchanged.
\<close>

theorem c7_unmatched_is_404:
  assumes "rmethod req \<noteq> OPTIONS" "parser_outcome req = Inr b" "\<not> routed req"
  shows "fst (app e fs req) = fs
       \<and> status (snd (app e fs req)) = 404
       \<and> (rmethod req \<noteq> HEAD \<longrightarrow>
            body (snd (app e fs req)) =
              Json (JObj [(''success'', JBool False),
                          (''error'', JStr ''Endpoint not found''),
                          (''available_endpoints'',
                             JArr [JStr ''GET /'',
                                   JStr ''GET /api/health'',
                                   JStr ''POST /api/screenshot'',
                                   JStr ''POST /api/screenshot/base64'',
                                   JStr ''GET /uploads/:filename''])]))"
proof -
  have "serve_static e fs req = None" using assms(3) by (rule serve_static_unrouted)
  moreover from assms(3) have
    "\<not> (is_get (rmethod req) \<and> route_match ''/'' (rpath req))"
    "\<not> (is_get (rmethod req) \<and> route_match ''/api/health'' (rpath req))"
    "\<not> (rmethod req = POST \<and> route_match ''/api/screenshot'' (rpath req))"
    "\<not> (rmethod req = POST \<and> route_match ''/api/screenshot/base64'' (rpath req))"
    by (simp_all add: routed_def)
  ultimately have "app e fs req = (fs, finish req not_found)"
    using assms(1,2) by (auto simp: app_def)
  then show ?thesis by (simp add: finish_def not_found_def)
qed

theorem c7_unmatched_is_404_witness:
  "rmethod (json_request POST ''/api/upload'' (JObj [])) \<noteq> OPTIONS
   \<and> \<not> routed (json_request POST ''/api/upload'' (JObj []))
   \<and> fst (app env0 fs0 (json_request POST ''/api/upload'' (JObj []))) = fs0
   \<and> status (snd (app env0 fs0 (json_request POST ''/api/upload'' (JObj [])))) = 404
   \<and> body (snd (app env0 fs0 (json_request POST ''/api/upload'' (JObj [])))) =
              Json (JObj [(''success'', JBool False),
                          (''error'', JStr ''Endpoint not found''),
                          (''available_endpoints'',
                             JArr [JStr ''GET /'',
                                   JStr ''GET /api/health'',
                                   JStr ''POST /api/screenshot'',
                                   JStr ''POST /api/screenshot/base64'',
                                   JStr ''GET /uploads/:filename''])])"
proof -
  let ?req = "json_request POST ''/api/upload'' (JObj [])"
  have 1: "rmethod ?req \<noteq> OPTIONS" "parser_outcome ?req = Inr (JObj [])" "rmethod ?req \<noteq> HEAD"
    by (simp_all add: json_request_def)
  have 2: "\<not> routed ?req"
    by (simp add: routed_def json_request_def is_get_def route_match_def to_lower_def)
  from c7_unmatched_is_404 [OF 1(1,2) 2, of env0 fs0] 1 2 show ?thesis by simp
qed

section \<open>The static mount and the round trip\<close>

lemma sendFile_file:
  assumes "files fs p = Some bytes" "p \<notin> dirs fs"
    and "\<not> isConditionalGET (headers g)" "\<not> isRangeRequest (headers g)"
  shows "sendFile g fs p = Served bytes"
  using assms by (simp add: sendFile_def statSync_def)

lemma not_slash_dot: "\<not> is_slash CHR ''.''"
  by (simp add: is_slash_def)

lemma uri_decode_prefix:
  "CHR ''%'' \<notin> set pre \<Longrightarrow> uri_decode (pre @ s) = map_option ((@) pre) (uri_decode s)"
proof (induction pre)
  case Nil
  then show ?case by (cases "uri_decode s") simp_all
next
  case (Cons a pre)
  then have "a \<noteq> CHR ''%''" "uri_decode (pre @ s) = map_option ((@) pre) (uri_decode s)"
    by auto
  then show ?case by (cases "uri_decode s") simp_all
qed

lemma hex_slash: "hex_value CHR ''/'' = None"
  by (simp add: hex_value_def)

lemma uri_decode_empty: "uri_decode p = Some [] \<Longrightarrow> p = []"
  by (cases p) (auto split: if_splits list.splits option.splits)

text \<open>A path that ends in a slash is decoded to a string that ends in a slash.\<close>

lemma uri_decode_last:
  "uri_decode p = Some q \<Longrightarrow> p \<noteq> [] \<Longrightarrow> last p = CHR ''/'' \<Longrightarrow> q \<noteq> [] \<and> last q = CHR ''/''"
proof (induction p arbitrary: q rule: length_induct)
  case (1 p)
  note IH = "1.IH" and prems = "1.prems"
  have step: "q \<noteq> [] \<and> last q = CHR ''/''"
    if "q = c # q'" "uri_decode rest = Some q'" "length rest < length p"
      "rest = [] \<Longrightarrow> c = CHR ''/''" "rest \<noteq> [] \<Longrightarrow> last rest = CHR ''/''"
    for c q' rest
  proof (cases "rest = []")
    case True
    with that show ?thesis by simp
  next
    case False
    with that IH [rule_format, of rest q'] have "q' \<noteq> [] \<and> last q' = CHR ''/''" by simp
    with that(1) show ?thesis by simp
  qed
  obtain c cs where p: "p = c # cs" using prems(2) by (cases p) auto
  show ?case
  proof (cases "c = CHR ''%''")
    case False
    with prems(1) p obtain q' where "uri_decode cs = Some q'" "q = c # q'" by auto
    with p prems(3) show ?thesis by (intro step [of c q' cs]) (auto split: if_splits)
  next
    case True
    with prems(1) p obtain h1 h2 rest v where
      cs: "cs = h1 # h2 # rest" and v: "hex_byte h1 h2 = Some v"
      by (auto split: list.splits option.splits)
    have h2: "h2 \<noteq> CHR ''/''"
      using v hex_slash by (auto simp: hex_byte_def split: option.splits)
    with p cs prems(3) have rest: "rest \<noteq> []" "last rest = CHR ''/''" by (auto split: if_splits)
    show ?thesis
    proof (cases "v < 128")
      case True
      with prems(1) p \<open>c = CHR ''%''\<close> cs v obtain q' where
        "uri_decode rest = Some q'" "q = char_of v # q'" by auto
      with p cs rest show ?thesis by (intro step [of "char_of v" q' rest]) simp_all
    next
      case False
      with prems(1) p \<open>c = CHR ''%''\<close> cs v obtain g1 g2 rest' w where
        r: "rest = CHR ''%'' # g1 # g2 # rest'" and w: "hex_byte g1 g2 = Some w"
        and d: "\<exists>q'. uri_decode rest' = Some q' \<and> q = char_of ((v - 192) * 64 + (w - 128)) # q'"
        by (auto split: list.splits option.splits if_splits)
      have g2: "g2 \<noteq> CHR ''/''"
        using w hex_slash by (auto simp: hex_byte_def split: option.splits)
      with r rest have rest': "rest' \<noteq> []" "last rest' = CHR ''/''" by (auto split: if_splits)
      from d obtain q' where "uri_decode rest' = Some q'"
        "q = char_of ((v - 192) * 64 + (w - 128)) # q'" by blast
      with p cs r rest' show ?thesis
        by (intro step [of "char_of ((v - 192) * 64 + (w - 128))" q' rest']) simp_all
    qed
  qed
qed

lemma relative_segments:
  assumes "servable name" "last name \<noteq> CHR ''/''"
    and "q = CHR ''/'' # name \<or> (q = name \<and> hd name = CHR ''/'')"
  shows "path_normalize (''./'' @ q) = join_sep (normalizeString True [] (split_on is_slash name))"
proof -
  let ?T = "normalizeString True [] (split_on is_slash name)"
  note sg = servable_segments [OF assms(1)]
  have nfT: "nf True ?T" by (rule nf_normalizeString) simp
  have j: "join_sep ?T \<noteq> []" using sg(3) nfT segments_clean by (rule join_sep_ends)
  have sp: "normalizeString True [] (split_on is_slash (CHR ''.'' # CHR ''/'' # q)) = ?T"
    using assms(3)
  proof
    assume q: "q = CHR ''/'' # name"
    show ?thesis unfolding q by (simp add: is_slash_slash not_slash_dot)
  next
    assume "q = name \<and> hd name = CHR ''/''"
    with sg(1) obtain rest where q: "q = CHR ''/'' # rest" "name = CHR ''/'' # rest"
      by (cases name) auto
    show ?thesis unfolding q by (simp add: is_slash_slash not_slash_dot)
  qed
  have l: "last (CHR ''.'' # CHR ''/'' # q) \<noteq> CHR ''/''"
    using assms(2,3) sg(1) by auto
  show ?thesis
    using sp l j by (simp add: path_normalize_def Let_def)
qed

lemma path_join_segments:
  assumes "servable name" "last name \<noteq> CHR ''/''"
  shows "path_join [uploadsDir e, join_sep (normalizeString True [] (split_on is_slash name))] =
           path_join [uploadsDir e, name]"
proof -
  let ?T = "normalizeString True [] (split_on is_slash name)"
  note sg = servable_segments [OF assms(1)]
  have nfT: "nf True ?T" by (rule nf_normalizeString) simp
  have j: "join_sep ?T \<noteq> []" "last (join_sep ?T) \<noteq> CHR ''/''"
    using join_sep_ends [OF sg(3) nfT segments_clean] by simp_all
  have s: "split_on is_slash (join_sep ?T) = ?T"
    using sg(3) segments_clean by (rule split_join)
  have n: "normalizeString True [] (split_on is_slash (join_sep ?T)) = ?T"
    unfolding s using nfT by (rule normalizeString_nf)
  have "path_join [uploadsDir e, join_sep ?T] =
      uploadsDir e @ ''/'' @ join_sep (normalizeString True [] (split_on is_slash (join_sep ?T)))"
  proof (rule path_join_under [OF uploadsDir_shape j])
    show "nf False (normalizeString True [] (split_on is_slash (join_sep ?T)))"
      unfolding n by (rule sg(2))
    show "normalizeString True [] (split_on is_slash (join_sep ?T)) \<noteq> []"
      unfolding n by (rule sg(3))
  qed
  then have "path_join [uploadsDir e, join_sep ?T] = uploadsDir e @ ''/'' @ join_sep ?T"
    by (simp only: n)
  also have "\<dots> = path_join [uploadsDir e, name]"
    using path_join_under [OF uploadsDir_shape sg(1) assms(2) sg(2,3), of e] by simp
  finally show ?thesis .
qed

text \<open>For a name the mount accepts, \<^verbatim>\<open>send\<close> looks at the file the upload route wrote: the
  path of the request is decoded to the name, and both are joined onto the uploads
  directory with the same result.\<close>

lemma send_servable:
  assumes "servable name" "last name \<noteq> CHR ''/''" "uri_decode p = Some q"
    and "q = CHR ''/'' # name \<or> (q = name \<and> hd name = CHR ''/'')"
  shows "send g fs (uploadsDir e) p = sendFile g fs (path_join [uploadsDir e, name])"
proof -
  let ?T = "normalizeString True [] (split_on is_slash name)"
  note sg = servable_segments [OF assms(1)]
  from assms(1) have nul: "CHR 0x00 \<notin> set name"
    and up: "\<not> up_path (join_sep ?T)" and dot: "\<not> containsDotFile ?T"
    by (auto simp: servable_def Let_def)
  from assms(2,4) nul sg(1) have q: "CHR 0x00 \<notin> set q" "q \<noteq> []" "last q \<noteq> CHR ''/''"
    by auto
  have p: "\<not> (p \<noteq> [] \<and> last p = CHR ''/'')"
    using uri_decode_last [OF assms(3)] q(3) by blast
  have r: "path_normalize (CHR ''.'' # CHR ''/'' # q) = join_sep ?T"
    using relative_segments [OF assms(1,2,4)] by simp
  have s: "split_on is_slash (join_sep ?T) = ?T"
    using sg(3) segments_clean by (rule split_join)
  have f: "path_normalize (path_join [uploadsDir e, join_sep ?T]) = path_join [uploadsDir e, name]"
    by (simp only: path_join_normalized path_join_segments [OF assms(1,2)])
  show ?thesis
    unfolding send_def assms(3) using q p up dot by (auto simp add: r s f Let_def)
qed

lemma mounted_upload:
  "enc \<noteq> [] \<Longrightarrow>
     mounted (''/uploads/'' @ enc) = Some (if hd enc = CHR ''/'' then enc else CHR ''/'' # enc)"
  by (cases enc) (simp_all add: mounted_def to_lower_def startsWith_def)

lemma uploadsDir_same: "script_dir e' = script_dir e \<Longrightarrow> uploadsDir e' = uploadsDir e"
  by (simp add: uploadsDir_def)

lemma send_upload:
  assumes "servable name" "last name \<noteq> CHR ''/''" "uri_decode enc = Some name"
  shows "send g fs (uploadsDir e) (if hd enc = CHR ''/'' then enc else CHR ''/'' # enc) =
           sendFile g fs (path_join [uploadsDir e, name])"
proof (cases "hd enc = CHR ''/''")
  case True
  have "name \<noteq> []" using assms(1) by (rule servable_segments(1))
  with assms(3) have "enc \<noteq> []" by auto
  with True obtain rest where "enc = CHR ''/'' # rest" by (cases enc) auto
  with assms(3) have "hd name = CHR ''/''" by auto
  with True show ?thesis
    using send_servable [OF assms(1,2,3)] by simp
next
  case False
  have "uri_decode (CHR ''/'' # enc) = Some (CHR ''/'' # name)" using assms(3) by simp
  from send_servable [OF assms(1,2) this] False show ?thesis by simp
qed

lemma get_upload:
  assumes "servable name" "last name \<noteq> CHR ''/''"
    and "files fs (path_join [uploadsDir e, name]) = Some bytes"
    and "path_join [uploadsDir e, name] \<notin> dirs fs"
    and "rmethod g = GET" "rpath g = ''/uploads/'' @ enc" "uri_decode enc = Some name"
    and "parser_outcome g = Inr b"
    and "\<not> isConditionalGET (headers g)" "\<not> isRangeRequest (headers g)"
  shows "app e fs g = (fs, \<lparr>status = 200, body = Raw bytes\<rparr>)"
proof -
  let ?p = "if hd enc = CHR ''/'' then enc else CHR ''/'' # enc"
  have "name \<noteq> []" using assms(1) by (rule servable_segments(1))
  with assms(7) have ne: "enc \<noteq> []" by auto
  have "send g fs (uploadsDir e) ?p = sendFile g fs (path_join [uploadsDir e, name])"
    using assms(1,2,7) by (rule send_upload)
  also have "\<dots> = Served bytes"
    using assms(3,4,9,10) by (rule sendFile_file)
  finally have "serve_static e fs g = Some \<lparr>status = 200, body = Raw bytes\<rparr>"
    using assms(5,6) mounted_upload [OF ne] by (simp add: serve_static_def)
  then show ?thesis using assms(5,8) by (simp add: app_def finish_def)
qed

lemma url_of_uploaded: "get_prop (json_body (uploaded name n)) ''url'' = JStr (''/uploads/'' @ name)"
  by (simp add: json_body_def uploaded_def)

lemma final_servable:
  assumes "servable_or_absent (get_prop b ''filename'')" "finalFilename e b = JStr name"
  shows "servable name"
proof (cases "truthy (get_prop b ''filename'')")
  case True
  with assms(2) have "get_prop b ''filename'' = JStr name" by (simp add: finalFilename_def)
  with True assms(1) show ?thesis by (simp add: servable_or_absent_def)
next
  case False
  with assms(2) have "name = ''screenshot-'' @ string_of_nat (now e) @ ''.png''"
    by (simp add: finalFilename_def)
  then show ?thesis by (simp only: servable_plain [OF plain_generated])
qed

text \<open>
  C2, as stated, fails: the base64 route puts the \<^verbatim>\<open>filename\<close> of the client into the URL as
  it is. With the name \<^verbatim>\<open>../evil.png\<close> the upload succeeds and the response carries the URL
  \<^verbatim>\<open>/uploads/../evil.png\<close>; the static mount refuses that path (it leaves the root), and the
  request ends in the 404 handler.
\<close>

theorem c2_traversal_counterexample:
  "app env0 fs0 (json_request POST ''/api/screenshot/base64'' traversal_body) =
     (fs0\<lparr>files := (files fs0)(''/app/evil.png'' \<mapsto> [104, 101, 108, 108, 111])\<rparr>,
      uploaded ''../evil.png'' 5)
   \<and> get_prop (json_body (uploaded ''../evil.png'' 5)) ''url'' = JStr ''/uploads/../evil.png''
   \<and> app env1 (fs0\<lparr>files := (files fs0)(''/app/evil.png'' \<mapsto> [104, 101, 108, 108, 111])\<rparr>)
         (json_request GET ''/uploads/../evil.png'' (JObj [])) =
     (fs0\<lparr>files := (files fs0)(''/app/evil.png'' \<mapsto> [104, 101, 108, 108, 111])\<rparr>, not_found)"
proof -
  let ?fs = "fs0\<lparr>files := (files fs0)(''/app/evil.png'' \<mapsto> [104, 101, 108, 108, 111])\<rparr>"
  have 1: "get_prop traversal_body ''image'' = JStr ''aGVsbG8=''" "''aGVsbG8='' \<noteq> []"
    by (simp_all add: traversal_body_def)
  have 2: "finalFilename env0 traversal_body = JStr ''../evil.png''"
    by (simp add: traversal_body_def finalFilename_def)
  have 3: "strip_data_url ''aGVsbG8='' = ''aGVsbG8=''"
    by (simp add: strip_data_url_def startsWith_def)
  have a: "app env0 fs0 (json_request POST ''/api/screenshot/base64'' traversal_body) =
      (?fs, uploaded ''../evil.png'' 5)"
    by (simp add: app_base64_json base64_handler_string [OF 1] 2 3 path_evil decode_hello
        write_evil uploaded_def)
  have m: "mounted ''/uploads/../evil.png'' = Some ''/../evil.png''"
    by (simp add: mounted_def to_lower_def startsWith_def)
  have d: "uri_decode ''/../evil.png'' = Some ''/../evil.png''"
    by (rule uri_decode_plain) simp
  have n: "path_normalize (''./'' @ ''/../evil.png'') = ''../evil.png''"
    by (simp add: path_normalize_def is_slash_def)
  have u: "up_path ''../evil.png''"
    by (simp add: up_path_def)
  have "send g fs (uploadsDir env1) ''/../evil.png'' = Next" for g fs
    using d n u by (simp add: send_def)
  with m have s: "serve_static env1 ?fs (json_request GET ''/uploads/../evil.png'' (JObj [])) = None"
    by (simp add: serve_static_def json_request_def)
  have r: "\<not> route_match ''/'' ''/uploads/../evil.png''"
    "\<not> route_match ''/api/health'' ''/uploads/../evil.png''"
    by (simp_all add: route_match_def to_lower_def)
  have g: "app env1 ?fs (json_request GET ''/uploads/../evil.png'' (JObj [])) = (?fs, not_found)"
    using s r by (simp add: app_def) (simp add: json_request_def finish_def)
  from a g show ?thesis by (simp add: url_of_uploaded)
qed

text \<open>
  C2, amended. For every multipart upload, and for every base64 upload whose \<^verbatim>\<open>filename\<close>
  field is absent or empty (the server generates the name) or is a name that the static
  mount accepts (no NUL character; after normalisation its segments are not empty, none is
  \<^verbatim>\<open>..\<close> and none starts with a dot): when the upload succeeds with URL \<open>U\<close> in its response,
  a following \<^verbatim>\<open>GET\<close> of \<open>U\<close> is answered 200 with exactly the bytes of the file the upload
  wrote. The \<^verbatim>\<open>GET\<close> is sent to the same installation, at any later time; its path is \<open>U\<close> as
  it stands or percent-encoded (it begins with \<^verbatim>\<open>/uploads/\<close>, consists of printable ASCII
  characters other than \<^verbatim>\<open>?\<close> and \<^verbatim>\<open>#\<close>, and \<^verbatim>\<open>decodeURIComponent\<close> turns it into \<open>U\<close>); its body,
  if it has one, is accepted by the body parsers; it has no conditional header and asks
  for no byte range.
\<close>

theorem c2_round_trip:
  assumes "rmethod req = POST" "parser_outcome req = Inr b"
    and "route_match ''/api/screenshot'' (rpath req)
         \<or> (route_match ''/api/screenshot/base64'' (rpath req)
            \<and> servable_or_absent (get_prop b ''filename''))"
    and "app e fs req = (fs', r)" "status r = 200"
    and "get_prop (json_body r) ''url'' = JStr U"
    and "script_dir e' = script_dir e"
    and "rmethod g = GET" "url_path (rpath g)" "startsWith (rpath g) ''/uploads/''"
    and "uri_decode (rpath g) = Some U"
    and "parser_outcome g = Inr b'"
    and "\<not> isConditionalGET (headers g)" "\<not> isRangeRequest (headers g)"
  shows "\<exists>name bytes.
           U = ''/uploads/'' @ name
           \<and> fs' = fs\<lparr>files := (files fs)(path_join [uploadsDir e, name] \<mapsto> bytes)\<rparr>
           \<and> app e' fs' g = (fs', \<lparr>status = 200, body = Raw bytes\<rparr>)"
proof -
  have "\<exists>name bytes. servable name
          \<and> writeFileSync fs (path_join [uploadsDir e, name]) bytes = Inr fs'
          \<and> r = uploaded name (length bytes)"
  proof (cases "route_match ''/api/screenshot'' (rpath req)")
    case True
    have a: "app e fs req = post_screenshot e fs b req"
      using assms(1) True assms(2) by (rule app_screenshot)
    have p: "post_screenshot e fs b req = (fs', r)" using a assms(4) by simp
    with assms(5) have "status (snd (post_screenshot e fs b req)) = 200" by simp
    from post_screenshot_written [OF this] obtain bytes where
      "writeFileSync fs (path_join [uploadsDir e, storage_filename e]) bytes = Inr fs'"
      "r = uploaded (storage_filename e) (length bytes)"
      by (auto simp: p)
    with servable_plain [OF plain_storage_filename, of e] show ?thesis by blast
  next
    case False
    with assms(3) have rt: "route_match ''/api/screenshot/base64'' (rpath req)"
      and pl: "servable_or_absent (get_prop b ''filename'')" by simp_all
    from assms(1) rt assms(2) have a: "app e fs req = base64_handler e fs b" by (rule app_base64)
    have p: "base64_handler e fs b = (fs', r)" using a assms(4) by simp
    with assms(5) have "status (snd (base64_handler e fs b)) = 200" by simp
    from base64_handler_written [OF this] obtain name bytes where
      "finalFilename e b = JStr name"
      "writeFileSync fs (path_join [uploadsDir e, name]) bytes = Inr fs'"
      "r = uploaded name (length bytes)"
      by (auto simp: p)
    with final_servable [OF pl] show ?thesis by blast
  qed
  then obtain name bytes where n: "servable name"
    "writeFileSync fs (path_join [uploadsDir e, name]) bytes = Inr fs'"
    "r = uploaded name (length bytes)" by blast
  from assms(6) n(3) have U: "U = ''/uploads/'' @ name" by (simp add: url_of_uploaded)
  have d: "uploadsDir e' = uploadsDir e" using assms(7) by (rule uploadsDir_same)
  have l: "last name \<noteq> CHR ''/''"
    using n(2) servable_segments(1) [OF n(1)] by (rule written_name)
  have w: "fs' = fs\<lparr>files := (files fs)(path_join [uploadsDir e, name] \<mapsto> bytes)\<rparr>"
    using write_ok [OF n(2)] by simp
  have f: "files fs' (path_join [uploadsDir e, name]) = Some bytes"
    "path_join [uploadsDir e, name] \<notin> dirs fs'"
    using write_files [OF n(2)] write_dirs [OF n(2)] by auto
  define enc where "enc = drop (length ''/uploads/'') (rpath g)"
  have rp: "rpath g = ''/uploads/'' @ enc"
    using assms(10) append_take_drop_id [of "length ''/uploads/''" "rpath g"]
    unfolding enc_def startsWith_def by simp
  have "uri_decode (''/uploads/'' @ enc) = map_option ((@) ''/uploads/'') (uri_decode enc)"
    by (rule uri_decode_prefix) simp
  with assms(11) rp U have dec: "uri_decode enc = Some name" by auto
  have "app e' fs' g = (fs', \<lparr>status = 200, body = Raw bytes\<rparr>)"
    using n(1) l f [folded d] assms(8) rp dec assms(12,13,14) by (rule get_upload)
  with U w show ?thesis by blast
qed

lemma servable_retina: "servable ''shot@2x.png''"
  by (simp add: servable_def is_slash_def up_path_def containsDotFile_def)

lemma path_retina: "path_join [uploadsDir env0, ''shot@2x.png''] = ''/app/uploads/shot@2x.png''"
  by (simp add: uploadsDir_env0) (simp add: path_join_def path_normalize_def is_slash_def)

lemma write_retina:
  "writeFileSync fs0 ''/app/uploads/shot@2x.png'' bytes =
     Inr (fs0\<lparr>files := (files fs0)(''/app/uploads/shot@2x.png'' \<mapsto> bytes)\<rparr>)"
  by (simp add: writeFileSync_def fs0_def byte_length_def is_slash_def)

lemma app_retina_upload:
  "app env0 fs0 (json_request POST ''/api/screenshot/base64'' retina_body) =
     (fs0\<lparr>files := (files fs0)(''/app/uploads/shot@2x.png'' \<mapsto> [104, 101, 108, 108, 111])\<rparr>,
      uploaded ''shot@2x.png'' 5)"
  unfolding retina_body_def by (rule app_hello_upload [OF _ path_retina write_retina]) simp

lemma servable_spaced: "servable ''my shot.png''"
  by (simp add: servable_def is_slash_def up_path_def containsDotFile_def)

lemma path_spaced: "path_join [uploadsDir env0, ''my shot.png''] = ''/app/uploads/my shot.png''"
  by (simp add: uploadsDir_env0) (simp add: path_join_def path_normalize_def is_slash_def)

lemma write_spaced:
  "writeFileSync fs0 ''/app/uploads/my shot.png'' bytes =
     Inr (fs0\<lparr>files := (files fs0)(''/app/uploads/my shot.png'' \<mapsto> bytes)\<rparr>)"
  by (simp add: writeFileSync_def fs0_def byte_length_def is_slash_def)

lemma app_spaced_upload:
  "app env0 fs0 (json_request POST ''/api/screenshot/base64'' spaced_body) =
     (fs0\<lparr>files := (files fs0)(''/app/uploads/my shot.png'' \<mapsto> [104, 101, 108, 108, 111])\<rparr>,
      uploaded ''my shot.png'' 5)"
  unfolding spaced_body_def by (rule app_hello_upload [OF _ path_spaced write_spaced]) simp

lemma decode_spaced: "uri_decode ''/uploads/my%20shot.png'' = Some ''/uploads/my shot.png''"
  by code_simp

lemma no_negotiation:
  "\<not> isConditionalGET (headers (json_request m p b))" "\<not> isRangeRequest (headers (json_request m p b))"
  by (simp_all add: json_request_def isConditionalGET_def isRangeRequest_def header_set_def)

theorem c2_round_trip_witness:
  "app env0 fs0 (multipart_request ''/api/screenshot'' [png_part]) =
     (fs0\<lparr>files := (files fs0)(''/app/uploads/screenshot-1700000000123.png'' \<mapsto> [137, 80, 78, 71])\<rparr>,
      uploaded ''screenshot-1700000000123.png'' 4)
   \<and> get_prop (json_body (uploaded ''screenshot-1700000000123.png'' 4)) ''url'' =
       JStr ''/uploads/screenshot-1700000000123.png''
   \<and> script_dir env1 = script_dir env0
   \<and> url_path ''/uploads/screenshot-1700000000123.png''
   \<and> uri_decode ''/uploads/screenshot-1700000000123.png'' = Some ''/uploads/screenshot-1700000000123.png''
   \<and> app env1
        (fs0\<lparr>files := (files fs0)(''/app/uploads/screenshot-1700000000123.png'' \<mapsto> [137, 80, 78, 71])\<rparr>)
        (json_request GET ''/uploads/screenshot-1700000000123.png'' (JObj [])) =
     (fs0\<lparr>files := (files fs0)(''/app/uploads/screenshot-1700000000123.png'' \<mapsto> [137, 80, 78, 71])\<rparr>,
      \<lparr>status = 200, body = Raw [137, 80, 78, 71]\<rparr>)
   \<and> servable_or_absent (get_prop spaced_body ''filename'')
   \<and> app env0 fs0 (json_request POST ''/api/screenshot/base64'' spaced_body) =
     (fs0\<lparr>files := (files fs0)(''/app/uploads/my shot.png'' \<mapsto> [104, 101, 108, 108, 111])\<rparr>,
      uploaded ''my shot.png'' 5)
   \<and> get_prop (json_body (uploaded ''my shot.png'' 5)) ''url'' = JStr ''/uploads/my shot.png''
   \<and> url_path ''/uploads/my%20shot.png''
   \<and> uri_decode ''/uploads/my%20shot.png'' = Some ''/uploads/my shot.png''
   \<and> app env1
        (fs0\<lparr>files := (files fs0)(''/app/uploads/my shot.png'' \<mapsto> [104, 101, 108, 108, 111])\<rparr>)
        (json_request GET ''/uploads/my%20shot.png'' (JObj [])) =
     (fs0\<lparr>files := (files fs0)(''/app/uploads/my shot.png'' \<mapsto> [104, 101, 108, 108, 111])\<rparr>,
      \<lparr>status = 200, body = Raw [104, 101, 108, 108, 111]\<rparr>)
   \<and> servable_or_absent (get_prop retina_body ''filename'')
   \<and> app env0 fs0 (json_request POST ''/api/screenshot/base64'' retina_body) =
     (fs0\<lparr>files := (files fs0)(''/app/uploads/shot@2x.png'' \<mapsto> [104, 101, 108, 108, 111])\<rparr>,
      uploaded ''shot@2x.png'' 5)
   \<and> get_prop (json_body (uploaded ''shot@2x.png'' 5)) ''url'' = JStr ''/uploads/shot@2x.png''
   \<and> url_path ''/uploads/shot@2x.png''
   \<and> uri_decode ''/uploads/shot@2x.png'' = Some ''/uploads/shot@2x.png''
   \<and> app env1
        (fs0\<lparr>files := (files fs0)(''/app/uploads/shot@2x.png'' \<mapsto> [104, 101, 108, 108, 111])\<rparr>)
        (json_request GET ''/uploads/shot@2x.png'' (JObj [])) =
     (fs0\<lparr>files := (files fs0)(''/app/uploads/shot@2x.png'' \<mapsto> [104, 101, 108, 108, 111])\<rparr>,
      \<lparr>status = 200, body = Raw [104, 101, 108, 108, 111]\<rparr>)"
proof -
  let ?req3 = "json_request POST ''/api/screenshot/base64'' retina_body"
  let ?fs3 = "fs0\<lparr>files := (files fs0)(''/app/uploads/shot@2x.png'' \<mapsto> [104, 101, 108, 108, 111])\<rparr>"
  let ?g3 = "json_request GET ''/uploads/shot@2x.png'' (JObj [])"
  let ?req = "multipart_request ''/api/screenshot'' [png_part]"
  let ?fs = "fs0\<lparr>files := (files fs0)(''/app/uploads/screenshot-1700000000123.png'' \<mapsto> [137, 80, 78, 71])\<rparr>"
  let ?g = "json_request GET ''/uploads/screenshot-1700000000123.png'' (JObj [])"
  let ?req2 = "json_request POST ''/api/screenshot/base64'' spaced_body"
  let ?fs2 = "fs0\<lparr>files := (files fs0)(''/app/uploads/my shot.png'' \<mapsto> [104, 101, 108, 108, 111])\<rparr>"
  let ?g2 = "json_request GET ''/uploads/my%20shot.png'' (JObj [])"
  have 1: "rmethod ?req = POST" "parser_outcome ?req = Inr (JObj [])"
    "route_match ''/api/screenshot'' (rpath ?req)
       \<or> (route_match ''/api/screenshot/base64'' (rpath ?req)
          \<and> servable_or_absent (get_prop (JObj []) ''filename''))"
    by (simp_all add: multipart_request_def route_screenshot)
  have 2: "status (uploaded name n) = 200" for name n
    by (rule status_uploaded)
  have 3: "get_prop (json_body (uploaded ''screenshot-1700000000123.png'' 4)) ''url'' =
       JStr ''/uploads/screenshot-1700000000123.png''"
    "get_prop (json_body (uploaded ''my shot.png'' 5)) ''url'' = JStr ''/uploads/my shot.png''"
    by (simp_all add: url_of_uploaded)
  have 4: "script_dir env1 = script_dir env0"
    by (simp add: env1_def)
  have u: "url_path ''/uploads/screenshot-1700000000123.png''" "url_path ''/uploads/my%20shot.png''"
    by (simp_all add: url_path_def)
  have dc: "uri_decode ''/uploads/screenshot-1700000000123.png'' =
      Some ''/uploads/screenshot-1700000000123.png''"
    by (rule uri_decode_plain) simp
  have 5: "rmethod ?g = GET" "url_path (rpath ?g)" "startsWith (rpath ?g) ''/uploads/''"
    "uri_decode (rpath ?g) = Some ''/uploads/screenshot-1700000000123.png''"
    "parser_outcome ?g = Inr (JObj [])"
    using u(1) dc by (simp_all add: json_request_def startsWith_def)
  have 6: "servable_or_absent (get_prop spaced_body ''filename'')"
    by (simp add: spaced_body_def servable_or_absent_def servable_spaced)
  have 7: "rmethod ?req2 = POST" "parser_outcome ?req2 = Inr spaced_body"
    "route_match ''/api/screenshot'' (rpath ?req2)
       \<or> (route_match ''/api/screenshot/base64'' (rpath ?req2)
          \<and> servable_or_absent (get_prop spaced_body ''filename''))"
    using 6 by (simp_all add: json_request_def route_base64)
  have 8: "rmethod ?g2 = GET" "url_path (rpath ?g2)" "startsWith (rpath ?g2) ''/uploads/''"
    "uri_decode (rpath ?g2) = Some ''/uploads/my shot.png''"
    "parser_outcome ?g2 = Inr (JObj [])"
    using u(2) decode_spaced by (simp_all add: json_request_def startsWith_def)
  from c2_round_trip [OF 1 app_png_upload 2 3(1) 4 5 no_negotiation]
  obtain name and bytes :: "byte list" where
    n: "''/uploads/screenshot-1700000000123.png'' = ''/uploads/'' @ name"
    "?fs = fs0\<lparr>files := (files fs0)(path_join [uploadsDir env0, name] \<mapsto> bytes)\<rparr>"
    "app env1 ?fs ?g = (?fs, \<lparr>status = 200, body = Raw bytes\<rparr>)"
    by blast
  from n(1) have "name = ''screenshot-1700000000123.png''" by simp
  with n(2) have "files ?fs ''/app/uploads/screenshot-1700000000123.png'' = Some bytes"
    by (simp add: path_generated)
  then have "bytes = [137, 80, 78, 71]" by simp
  with n(3) have a: "app env1 ?fs ?g = (?fs, \<lparr>status = 200, body = Raw [137, 80, 78, 71]\<rparr>)"
    by simp
  from c2_round_trip [OF 7 app_spaced_upload 2 3(2) 4 8 no_negotiation]
  obtain name2 and bytes2 :: "byte list" where
    m: "''/uploads/my shot.png'' = ''/uploads/'' @ name2"
    "?fs2 = fs0\<lparr>files := (files fs0)(path_join [uploadsDir env0, name2] \<mapsto> bytes2)\<rparr>"
    "app env1 ?fs2 ?g2 = (?fs2, \<lparr>status = 200, body = Raw bytes2\<rparr>)"
    by blast
  from m(1) have "name2 = ''my shot.png''" by simp
  with m(2) have "files ?fs2 ''/app/uploads/my shot.png'' = Some bytes2"
    by (simp add: path_spaced)
  then have "bytes2 = [104, 101, 108, 108, 111]" by simp
  with m(3) have b: "app env1 ?fs2 ?g2 =
      (?fs2, \<lparr>status = 200, body = Raw [104, 101, 108, 108, 111]\<rparr>)"
    by simp
  have 9: "servable_or_absent (get_prop retina_body ''filename'')"
    by (simp add: retina_body_def servable_or_absent_def servable_retina)
  have 10: "rmethod ?req3 = POST" "parser_outcome ?req3 = Inr retina_body"
    "route_match ''/api/screenshot'' (rpath ?req3)
       \<or> (route_match ''/api/screenshot/base64'' (rpath ?req3)
          \<and> servable_or_absent (get_prop retina_body ''filename''))"
    using 9 by (simp_all add: json_request_def route_base64)
  have u3: "url_path ''/uploads/shot@2x.png''" by (simp add: url_path_def)
  have d3: "uri_decode ''/uploads/shot@2x.png'' = Some ''/uploads/shot@2x.png''"
    by (rule uri_decode_plain) simp
  have u3': "get_prop (json_body (uploaded ''shot@2x.png'' 5)) ''url'' = JStr ''/uploads/shot@2x.png''"
    by (simp add: url_of_uploaded)
  have 11: "rmethod ?g3 = GET" "url_path (rpath ?g3)" "startsWith (rpath ?g3) ''/uploads/''"
    "uri_decode (rpath ?g3) = Some ''/uploads/shot@2x.png''"
    "parser_outcome ?g3 = Inr (JObj [])"
    using u3 d3 by (simp_all add: json_request_def startsWith_def)
  from c2_round_trip [OF 10 app_retina_upload 2 u3' 4 11 no_negotiation]
  obtain name3 and bytes3 :: "byte list" where
    k: "''/uploads/shot@2x.png'' = ''/uploads/'' @ name3"
    "?fs3 = fs0\<lparr>files := (files fs0)(path_join [uploadsDir env0, name3] \<mapsto> bytes3)\<rparr>"
    "app env1 ?fs3 ?g3 = (?fs3, \<lparr>status = 200, body = Raw bytes3\<rparr>)"
    by blast
  from k(1) have "name3 = ''shot@2x.png''" by simp
  with k(2) have "files ?fs3 ''/app/uploads/shot@2x.png'' = Some bytes3"
    by (simp add: path_retina)
  then have "bytes3 = [104, 101, 108, 108, 111]" by simp
  with k(3) have c: "app env1 ?fs3 ?g3 =
      (?fs3, \<lparr>status = 200, body = Raw [104, 101, 108, 108, 111]\<rparr>)"
    by simp
  from a b c app_png_upload app_spaced_upload app_retina_upload 3 4 6 9 u dc decode_spaced
    u3 d3 u3'
  show ?thesis by simp
qed

section \<open>Further properties of the routes\<close>

lemma sendFile_missing:
  "files fs p = None \<Longrightarrow> p \<notin> dirs fs \<Longrightarrow> sendFile g fs p = Next"
  by (simp add: sendFile_def statSync_def)

lemma get_passed_on:
  assumes "rmethod g = GET" "rpath g = ''/uploads/'' @ enc" "parser_outcome g = Inr b"
    and "mounted (rpath g) = Some p" "send g fs (uploadsDir e) p = Next"
  shows "app e fs g = (fs, not_found)"
proof -
  have "serve_static e fs g = None"
    using assms(1,4,5) by (simp add: serve_static_def)
  moreover have "\<not> route_match ''/'' (rpath g)" "\<not> route_match ''/api/health'' (rpath g)"
    using assms(2) by (simp_all add: route_match_def to_lower_def)
  ultimately show ?thesis
    using assms(1,3) by (simp add: app_def finish_def)
qed

text \<open>
  Retrieving a file that does not exist: for a name under \<^verbatim>\<open>/uploads/\<close> that the static
  mount accepts, with no file (and no directory) of that name in the uploads directory, the
  mount passes the request on and the 404 handler answers it.
\<close>

theorem missing_upload_is_404:
  assumes "servable name" "last name \<noteq> CHR ''/''"
    and "files fs (path_join [uploadsDir e, name]) = None"
    and "path_join [uploadsDir e, name] \<notin> dirs fs"
    and "rmethod g = GET" "rpath g = ''/uploads/'' @ enc" "uri_decode enc = Some name"
    and "parser_outcome g = Inr b"
  shows "app e fs g =
    (fs, \<lparr>status = 404,
          body = Json (JObj [(''success'', JBool False),
                             (''error'', JStr ''Endpoint not found''),
                             (''available_endpoints'',
                                JArr [JStr ''GET /'',
                                      JStr ''GET /api/health'',
                                      JStr ''POST /api/screenshot'',
                                      JStr ''POST /api/screenshot/base64'',
                                      JStr ''GET /uploads/:filename''])])\<rparr>)"
proof -
  let ?p = "if hd enc = CHR ''/'' then enc else CHR ''/'' # enc"
  have "name \<noteq> []" using assms(1) by (rule servable_segments(1))
  with assms(7) have ne: "enc \<noteq> []" by auto
  have "send g fs (uploadsDir e) ?p = sendFile g fs (path_join [uploadsDir e, name])"
    using assms(1,2,7) by (rule send_upload)
  also have "\<dots> = Next"
    using assms(3,4) by (rule sendFile_missing)
  finally have s: "send g fs (uploadsDir e) ?p = Next" .
  have m: "mounted (rpath g) = Some ?p"
    unfolding assms(6) using ne by (rule mounted_upload)
  from get_passed_on [OF assms(5,6,8) m s] show ?thesis by (simp add: not_found_def)
qed

theorem missing_upload_is_404_witness:
  "servable ''missing.png''
   \<and> files fs0 (path_join [uploadsDir env0, ''missing.png'']) = None
   \<and> app env0 fs0 (json_request GET ''/uploads/missing.png'' (JObj [])) =
    (fs0, \<lparr>status = 404,
          body = Json (JObj [(''success'', JBool False),
                             (''error'', JStr ''Endpoint not found''),
                             (''available_endpoints'',
                                JArr [JStr ''GET /'',
                                      JStr ''GET /api/health'',
                                      JStr ''POST /api/screenshot'',
                                      JStr ''POST /api/screenshot/base64'',
                                      JStr ''GET /uploads/:filename''])])\<rparr>)"
proof -
  let ?g = "json_request GET ''/uploads/missing.png'' (JObj [])"
  have 1: "servable ''missing.png''" "last ''missing.png'' \<noteq> CHR ''/''"
    by (simp_all add: servable_def is_slash_def up_path_def containsDotFile_def)
  have 2: "files fs0 (path_join [uploadsDir env0, ''missing.png'']) = None"
    "path_join [uploadsDir env0, ''missing.png''] \<notin> dirs fs0"
    by (simp_all add: uploadsDir_env0)
       (simp_all add: path_join_def path_normalize_def is_slash_def fs0_def)
  have 3: "rmethod ?g = GET" "rpath ?g = ''/uploads/'' @ ''missing.png''"
    "uri_decode ''missing.png'' = Some ''missing.png''"
    "parser_outcome ?g = Inr (JObj [])"
    by (simp_all add: json_request_def uri_decode_plain)
  from missing_upload_is_404 [OF 1 2 3] 1(1) 2(1) show ?thesis by simp
qed

text \<open>
  What the static mount refuses. A file the base64 route has stored under a name that
  starts with a dot is not served: the request for its URL ends in the 404 handler. The
  same holds for a name with a \<^verbatim>\<open>%\<close> that is requested as it stands, because the mount decodes
  the path and \<^verbatim>\<open>100%.png\<close> cannot be decoded.
\<close>

lemma path_dotted: "path_join [uploadsDir env0, ''.env''] = ''/app/uploads/.env''"
  by (simp add: uploadsDir_env0) (simp add: path_join_def path_normalize_def is_slash_def)

lemma write_dotted:
  "writeFileSync fs0 ''/app/uploads/.env'' bytes =
     Inr (fs0\<lparr>files := (files fs0)(''/app/uploads/.env'' \<mapsto> bytes)\<rparr>)"
  by (simp add: writeFileSync_def fs0_def byte_length_def is_slash_def)

lemma path_percent: "path_join [uploadsDir env0, ''100%.png''] = ''/app/uploads/100%.png''"
  by (simp add: uploadsDir_env0) (simp add: path_join_def path_normalize_def is_slash_def)

lemma write_percent:
  "writeFileSync fs0 ''/app/uploads/100%.png'' bytes =
     Inr (fs0\<lparr>files := (files fs0)(''/app/uploads/100%.png'' \<mapsto> bytes)\<rparr>)"
  by (simp add: writeFileSync_def fs0_def byte_length_def is_slash_def)

lemma decode_percent: "uri_decode ''/100%.png'' = None"
  by code_simp

theorem dot_file_is_not_served:
  "app env0 fs0 (json_request POST ''/api/screenshot/base64''
       (JObj [(''image'', JStr ''aGVsbG8=''), (''filename'', JStr ''.env'')])) =
     (fs0\<lparr>files := (files fs0)(''/app/uploads/.env'' \<mapsto> [104, 101, 108, 108, 111])\<rparr>,
      uploaded ''.env'' 5)
   \<and> app env1 (fs0\<lparr>files := (files fs0)(''/app/uploads/.env'' \<mapsto> [104, 101, 108, 108, 111])\<rparr>)
         (json_request GET ''/uploads/.env'' (JObj [])) =
     (fs0\<lparr>files := (files fs0)(''/app/uploads/.env'' \<mapsto> [104, 101, 108, 108, 111])\<rparr>, not_found)"
proof -
  let ?g = "json_request GET ''/uploads/.env'' (JObj [])"
  have a: "app env0 fs0 (json_request POST ''/api/screenshot/base64''
       (JObj [(''image'', JStr ''aGVsbG8=''), (''filename'', JStr ''.env'')])) =
     (fs0\<lparr>files := (files fs0)(''/app/uploads/.env'' \<mapsto> [104, 101, 108, 108, 111])\<rparr>,
      uploaded ''.env'' 5)"
    by (rule app_hello_upload [OF _ path_dotted write_dotted]) simp
  have m: "mounted (rpath ?g) = Some ''/.env''"
    by (simp add: json_request_def mounted_def to_lower_def startsWith_def)
  have d: "uri_decode ''/.env'' = Some ''/.env''" by (rule uri_decode_plain) simp
  have n: "path_normalize (''./'' @ ''/.env'') = ''.env''"
    by (simp add: path_normalize_def is_slash_def)
  have u: "\<not> up_path ''.env''" by (simp add: up_path_def)
  have c: "containsDotFile (split_on is_slash ''.env'')"
    by (simp add: containsDotFile_def is_slash_def)
  have s: "send ?g fs (uploadsDir env1) ''/.env'' = Next" for fs
    using d n u c by (simp add: send_def)
  have 1: "rmethod ?g = GET" "rpath ?g = ''/uploads/'' @ ''.env''" "parser_outcome ?g = Inr (JObj [])"
    by (simp_all add: json_request_def)
  from a get_passed_on [OF 1 m s] show ?thesis by simp
qed

theorem percent_name_is_not_served:
  "app env0 fs0 (json_request POST ''/api/screenshot/base64''
       (JObj [(''image'', JStr ''aGVsbG8=''), (''filename'', JStr ''100%.png'')])) =
     (fs0\<lparr>files := (files fs0)(''/app/uploads/100%.png'' \<mapsto> [104, 101, 108, 108, 111])\<rparr>,
      uploaded ''100%.png'' 5)
   \<and> app env1 (fs0\<lparr>files := (files fs0)(''/app/uploads/100%.png'' \<mapsto> [104, 101, 108, 108, 111])\<rparr>)
         (json_request GET ''/uploads/100%.png'' (JObj [])) =
     (fs0\<lparr>files := (files fs0)(''/app/uploads/100%.png'' \<mapsto> [104, 101, 108, 108, 111])\<rparr>, not_found)"
proof -
  let ?g = "json_request GET ''/uploads/100%.png'' (JObj [])"
  have a: "app env0 fs0 (json_request POST ''/api/screenshot/base64''
       (JObj [(''image'', JStr ''aGVsbG8=''), (''filename'', JStr ''100%.png'')])) =
     (fs0\<lparr>files := (files fs0)(''/app/uploads/100%.png'' \<mapsto> [104, 101, 108, 108, 111])\<rparr>,
      uploaded ''100%.png'' 5)"
    by (rule app_hello_upload [OF _ path_percent write_percent]) simp
  have m: "mounted (rpath ?g) = Some ''/100%.png''"
    by (simp add: json_request_def mounted_def to_lower_def startsWith_def)
  have s: "send ?g fs (uploadsDir env1) ''/100%.png'' = Next" for fs
    unfolding send_def decode_percent by simp
  have 1: "rmethod ?g = GET" "rpath ?g = ''/uploads/'' @ ''100%.png''" "parser_outcome ?g = Inr (JObj [])"
    by (simp_all add: json_request_def)
  from a get_passed_on [OF 1 m s] show ?thesis by simp
qed

text \<open>
  A request for a byte range of a stored file is answered 206 with the bytes of the range,
  here the first two of four.
\<close>

theorem byte_range_is_partial:
  "app env1
     (fs0\<lparr>files := (files fs0)(''/app/uploads/screenshot-1700000000123.png'' \<mapsto> [137, 80, 78, 71])\<rparr>)
     (range_request ''/uploads/screenshot-1700000000123.png'') =
   (fs0\<lparr>files := (files fs0)(''/app/uploads/screenshot-1700000000123.png'' \<mapsto> [137, 80, 78, 71])\<rparr>,
    \<lparr>status = 206, body = Raw [137, 80]\<rparr>)"
proof -
  let ?fs = "fs0\<lparr>files := (files fs0)(''/app/uploads/screenshot-1700000000123.png'' \<mapsto> [137, 80, 78, 71])\<rparr>"
  let ?g = "range_request ''/uploads/screenshot-1700000000123.png''"
  let ?name = "''screenshot-1700000000123.png''"
  have sv: "servable ?name" "last ?name \<noteq> CHR ''/''"
    by (simp_all add: servable_def is_slash_def up_path_def containsDotFile_def)
  have d: "uri_decode ?name = Some ?name" by (rule uri_decode_plain) simp
  have u: "uploadsDir env1 = ''/app/uploads''"
    using uploadsDir_same [of env1 env0] by (simp add: env1_def uploadsDir_env0)
  have r: "isRangeRequest (headers ?g)"
    by (simp add: range_request_def isRangeRequest_def startsWith_def to_lower_def)
  have "send ?g ?fs (uploadsDir env1) (CHR ''/'' # ?name) =
      sendFile ?g ?fs (path_join [uploadsDir env1, ?name])"
    using send_upload [OF sv d, of ?g ?fs env1] by simp
  also have "\<dots> = sendFile ?g ?fs ''/app/uploads/screenshot-1700000000123.png''"
    using path_generated by (simp add: u uploadsDir_env0)
  also have "\<dots> = ServedPart [137, 80]"
    using r by (simp add: sendFile_def statSync_def fs0_def) (simp add: range_request_def)
  finally have "serve_static env1 ?fs ?g = Some \<lparr>status = 206, body = Raw [137, 80]\<rparr>"
    by (simp add: serve_static_def range_request_def mounted_def to_lower_def startsWith_def)
  then show ?thesis by (simp add: app_def finish_def range_request_def)
qed

lemma multer_files_content:
  assumes "multer_files e parts filesLeft stored fs = (fs', Inr (Some f))"
  shows "(\<exists>part. part \<in> set parts \<and> originalname part \<noteq> []
            \<and> files fs' (path_join [uploadsDir e, storage_filename e]) = Some (content part))
         \<or> (stored \<noteq> None
            \<and> files fs' (path_join [uploadsDir e, storage_filename e]) =
                files fs (path_join [uploadsDir e, storage_filename e]))"
  using assms
proof (induction parts arbitrary: filesLeft stored fs)
  case Nil
  then show ?case by auto
next
  case (Cons part parts)
  let ?p = "path_join [uploadsDir e, storage_filename e]"
  show ?case
  proof (cases "originalname part = []")
    case True
    with Cons.prems have "multer_files e parts filesLeft stored fs = (fs', Inr (Some f))" by simp
    from Cons.IH [OF this] show ?thesis by auto
  next
    case named: False
    show ?thesis
    proof (cases "fieldname part \<noteq> ''screenshot'' \<or> filesLeft = 0")
      case True
      with named Cons.prems show ?thesis by (simp add: abort_upload_def)
    next
      case field: False
      show ?thesis
      proof (cases "startsWith (mimetype part) ''image/''")
        case False
        with named field Cons.prems show ?thesis
          by (simp add: abort_upload_def fileFilter_def)
      next
        case True
        let ?w = "take fileSize (content part)"
        let ?f = "\<lparr>file_filename = storage_filename e, file_path = ?p,
                   file_mimetype = mimetype part, file_size = length ?w\<rparr>"
        show ?thesis
        proof (cases "writeFileSync fs ?p ?w")
          case (Inl fault)
          with named field True Cons.prems show ?thesis
            by (simp add: abort_upload_def fileFilter_def Let_def)
        next
          case (Inr fs1)
          show ?thesis
          proof (cases "fileSize \<le> length (content part)")
            case big: True
            with named field True Inr Cons.prems show ?thesis
              by (simp add: abort_upload_def fileFilter_def Let_def)
          next
            case False
            then have w: "?w = content part" by simp
            from False named field True Inr Cons.prems
            have r: "multer_files e parts (filesLeft - 1) (Some ?f) fs1 = (fs', Inr (Some f))"
              by (simp add: fileFilter_def Let_def)
            have "files fs1 ?p = Some (content part)"
              using write_files [OF Inr] w by simp
            with Cons.IH [OF r] named show ?thesis by auto
          qed
        qed
      qed
    qed
  qed
qed

text \<open>
  A successful multipart upload stores the content of a file part of the request,
  unchanged, under the generated name in the uploads directory.
\<close>

theorem multipart_stores_content:
  assumes "rmethod req = POST" "route_match ''/api/screenshot'' (rpath req)"
    and "parser_outcome req = Inr b" "multipart req = Some (text_fields, parts)"
    and "app e fs req = (fs', r)" "status r = 200"
  shows "\<exists>part. part \<in> set parts \<and> originalname part \<noteq> []
           \<and> files fs' (path_join [uploadsDir e, storage_filename e]) = Some (content part)"
proof -
  have a: "app e fs req = post_screenshot e fs b req" using assms(1-3) by (rule app_screenshot)
  obtain fs1 res where m: "multer_files e parts 1 None fs = (fs1, res)"
    by (cases "multer_files e parts 1 None fs")
  show ?thesis
  proof (cases res)
    case (Inl err)
    with a m assms(4-6) show ?thesis
      by (simp add: post_screenshot_def upload_single_def status_error_middleware)
  next
    case (Inr stored)
    show ?thesis
    proof (cases stored)
      case None
      with a m Inr assms(4-6) show ?thesis
        by (auto simp: post_screenshot_def upload_single_def status_no_file)
    next
      case (Some f)
      with a m Inr assms(4,5) have "fs1 = fs'"
        by (simp add: post_screenshot_def upload_single_def)
      with m Inr Some have "multer_files e parts 1 None fs = (fs', Inr (Some f))" by simp
      from multer_files_content [OF this] show ?thesis by simp
    qed
  qed
qed

theorem multipart_stores_content_witness:
  "multipart (multipart_request ''/api/screenshot'' [png_part]) =
     Some ([(''note'', JStr ''hello'')], [png_part])
   \<and> app env0 fs0 (multipart_request ''/api/screenshot'' [png_part]) =
     (fs0\<lparr>files := (files fs0)(''/app/uploads/screenshot-1700000000123.png'' \<mapsto> [137, 80, 78, 71])\<rparr>,
      uploaded ''screenshot-1700000000123.png'' 4)
   \<and> (\<exists>part. part \<in> set [png_part] \<and> originalname part \<noteq> []
           \<and> files (fs0\<lparr>files := (files fs0)(''/app/uploads/screenshot-1700000000123.png'' \<mapsto> [137, 80, 78, 71])\<rparr>)
                (path_join [uploadsDir env0, storage_filename env0]) = Some (content part))"
proof -
  let ?req = "multipart_request ''/api/screenshot'' [png_part]"
  have 1: "rmethod ?req = POST" "route_match ''/api/screenshot'' (rpath ?req)"
    "parser_outcome ?req = Inr (JObj [])"
    by (simp_all add: multipart_request_def route_screenshot)
  have 2: "multipart ?req = Some ([(''note'', JStr ''hello'')], [png_part])"
    by (rule multipart_of_request)
  have 3: "status (uploaded ''screenshot-1700000000123.png'' 4) = 200"
    by (rule status_uploaded)
  from multipart_stores_content [OF 1 2 app_png_upload 3] 2 app_png_upload show ?thesis
    by simp
qed

text \<open>
  A successful base64 upload stores the decoding of the \<^verbatim>\<open>image\<close> string after the data
  URL prefix has been removed.
\<close>

theorem base64_stores_decoding:
  assumes "rmethod req = POST" "route_match ''/api/screenshot/base64'' (rpath req)"
    and "parser_outcome req = Inr b"
    and "app e fs req = (fs', r)" "status r = 200"
  shows "\<exists>s name. get_prop b ''image'' = JStr s \<and> finalFilename e b = JStr name
           \<and> files fs' (path_join [uploadsDir e, name]) = Some (base64_decode (strip_data_url s))"
proof -
  have a: "app e fs req = base64_handler e fs b" using assms(1-3) by (rule app_base64)
  with assms(4) have p: "base64_handler e fs b = (fs', r)" by simp
  show ?thesis
  proof (cases "is_nullish b")
    case True
    with p assms(5) show ?thesis
      by (auto simp: base64_handler_def status_internal_server_error)
  next
    case nn: False
    show ?thesis
    proof (cases "get_prop b ''image''")
      case (JStr s)
      show ?thesis
      proof (cases "s = []")
        case True
        with nn JStr p assms(5) show ?thesis by (auto simp: base64_handler_def)
      next
        case False
        note h = base64_handler_string [OF JStr False, of e fs]
        show ?thesis
        proof (cases "finalFilename e b")
          case name: (JStr name)
          show ?thesis
          proof (cases "writeFileSync fs (path_join [uploadsDir e, name]) (base64_decode (strip_data_url s))")
            case (Inl fault)
            with name h p assms(5) show ?thesis by (auto simp: status_internal_server_error)
          next
            case (Inr fs1)
            with name h p write_files [OF Inr] JStr show ?thesis by auto
          qed
        qed (use h p assms(5) in \<open>auto simp: status_internal_server_error\<close>)
      qed
    qed (use nn p assms(5) in \<open>auto simp: base64_handler_def Let_def status_internal_server_error
           split: if_splits\<close>)
  qed
qed

theorem base64_stores_decoding_witness:
  "app env0 fs0 (json_request POST ''/api/screenshot/base64'' traversal_body) =
     (fs0\<lparr>files := (files fs0)(''/app/evil.png'' \<mapsto> [104, 101, 108, 108, 111])\<rparr>,
      uploaded ''../evil.png'' 5)
   \<and> (\<exists>s name. get_prop traversal_body ''image'' = JStr s
         \<and> finalFilename env0 traversal_body = JStr name
         \<and> files (fs0\<lparr>files := (files fs0)(''/app/evil.png'' \<mapsto> [104, 101, 108, 108, 111])\<rparr>)
              (path_join [uploadsDir env0, name]) = Some (base64_decode (strip_data_url s)))"
proof -
  let ?req = "json_request POST ''/api/screenshot/base64'' traversal_body"
  have 1: "rmethod ?req = POST" "route_match ''/api/screenshot/base64'' (rpath ?req)"
    "parser_outcome ?req = Inr traversal_body"
    by (simp_all add: json_request_def route_base64)
  have 2: "get_prop traversal_body ''image'' = JStr ''aGVsbG8=''" "''aGVsbG8='' \<noteq> []"
    by (simp_all add: traversal_body_def)
  have 3: "finalFilename env0 traversal_body = JStr ''../evil.png''"
    by (simp add: traversal_body_def finalFilename_def)
  have 4: "strip_data_url ''aGVsbG8='' = ''aGVsbG8=''"
    by (simp add: strip_data_url_def startsWith_def)
  have a: "app env0 fs0 ?req =
      (fs0\<lparr>files := (files fs0)(''/app/evil.png'' \<mapsto> [104, 101, 108, 108, 111])\<rparr>,
       uploaded ''../evil.png'' 5)"
    by (simp add: app_base64_json base64_handler_string [OF 2] 3 4 path_evil decode_hello
        write_evil uploaded_def)
  have 5: "status (uploaded ''../evil.png'' 5) = 200" by (rule status_uploaded)
  from base64_stores_decoding [OF 1 a 5] a show ?thesis by simp
qed

text \<open>
  The limit of multer is reached by a file of exactly 10 MiB: it is answered 400 like a
  larger one, and the file is removed again.
\<close>

theorem exact_limit_is_400:
  "length (content exact_png_part) = 10 * 1024 * 1024
   \<and> snd (app env0 fs0 (multipart_request ''/api/screenshot'' [exact_png_part])) =
           \<lparr>status = 400,
            body = Json (JObj [(''success'', JBool False),
                               (''error'', JStr ''File too large''),
                               (''message'', JStr ''File size should be less than 10MB'')])\<rparr>
   \<and> files (fst (app env0 fs0 (multipart_request ''/api/screenshot'' [exact_png_part])))
         ''/app/uploads/screenshot-1700000000123.png'' = None"
proof -
  let ?req = "multipart_request ''/api/screenshot'' [exact_png_part]"
  have 1: "originalname exact_png_part \<noteq> []" "fieldname exact_png_part = ''screenshot''"
    "startsWith (mimetype exact_png_part) ''image/''" "fileSize \<le> length (content exact_png_part)"
    by (simp_all add: exact_png_part_def startsWith_def)
  have t: "take fileSize (content exact_png_part) = replicate fileSize 0"
    by (simp add: exact_png_part_def)
  have 2: "writeFileSync fs0 (path_join [uploadsDir env0, storage_filename env0])
        (take fileSize (content exact_png_part)) =
       Inr (fs0\<lparr>files := (files fs0)(''/app/uploads/screenshot-1700000000123.png'' \<mapsto> replicate fileSize 0)\<rparr>)"
    by (simp only: t storage_filename_env0 path_generated write_generated)
  have m: "multer_files env0 [exact_png_part] (Suc 0) None fs0 =
      (unlink (fs0\<lparr>files := (files fs0)(''/app/uploads/screenshot-1700000000123.png'' \<mapsto> replicate fileSize 0)\<rparr>)
         (path_join [uploadsDir env0, storage_filename env0]),
       Inl (MulterError ''LIMIT_FILE_SIZE''))"
    by (rule multer_too_large [OF 1 2])
  have l: "length (content exact_png_part) = 10 * 1024 * 1024"
    by (simp add: exact_png_part_def fileSize_def)
  have "upload_single env0 fs0 (JObj []) ?req =
      (unlink (fs0\<lparr>files := (files fs0)(''/app/uploads/screenshot-1700000000123.png'' \<mapsto> replicate fileSize 0)\<rparr>)
         ''/app/uploads/screenshot-1700000000123.png'',
       Inl (MulterError ''LIMIT_FILE_SIZE''))"
    using m by (simp add: upload_single_def multipart_of_request storage_filename_env0 path_generated
        del: multer_files.simps)
  then show ?thesis
    using l by (simp add: app_screenshot_multipart post_screenshot_def error_middleware_def unlink_def)
qed

text \<open>
  The faults of a write. Below a directory that does not exist the fault is \<^verbatim>\<open>ENOENT\<close>, also
  when the path ends in a separator; below a file it is \<^verbatim>\<open>ENOTDIR\<close>; a path that ends in a
  separator, in a directory that exists, is \<^verbatim>\<open>EISDIR\<close>; a name of more than 255 bytes is
  \<^verbatim>\<open>ENAMETOOLONG\<close>.
\<close>

theorem write_faults:
  "writeFileSync fs0 ''/app/uploads/sub/x.png'' bytes = Inl (ENOENT ''/app/uploads/sub/x.png'')
   \<and> writeFileSync fs0 ''/app/uploads/sub/x/'' bytes = Inl (ENOENT ''/app/uploads/sub/x/'')
   \<and> writeFileSync (fs0\<lparr>files := (files fs0)(''/app/uploads/shot.png'' \<mapsto> [1])\<rparr>)
        ''/app/uploads/shot.png/x.png'' bytes = Inl (ENOTDIR ''/app/uploads/shot.png/x.png'')
   \<and> writeFileSync fs0 ''/app/uploads/x/'' bytes = Inl (EISDIR ''/app/uploads/x/'')
   \<and> writeFileSync fs0 (''/app/uploads/'' @ replicate 256 CHR ''a'') bytes =
       Inl (ENAMETOOLONG (''/app/uploads/'' @ replicate 256 CHR ''a''))"
proof -
  have 1: "writeFileSync fs0 ''/app/uploads/sub/x.png'' bytes = Inl (ENOENT ''/app/uploads/sub/x.png'')"
    by (simp add: writeFileSync_def fs0_def byte_length_def is_slash_def)
  have 2: "writeFileSync fs0 ''/app/uploads/sub/x/'' bytes = Inl (ENOENT ''/app/uploads/sub/x/'')"
    by (simp add: writeFileSync_def fs0_def byte_length_def is_slash_def)
  have 3: "writeFileSync (fs0\<lparr>files := (files fs0)(''/app/uploads/shot.png'' \<mapsto> [1])\<rparr>)
        ''/app/uploads/shot.png/x.png'' bytes = Inl (ENOTDIR ''/app/uploads/shot.png/x.png'')"
    by (simp add: writeFileSync_def fs0_def byte_length_def is_slash_def)
  have 4: "writeFileSync fs0 ''/app/uploads/x/'' bytes = Inl (EISDIR ''/app/uploads/x/'')"
    by (simp add: writeFileSync_def fs0_def byte_length_def is_slash_def)
  let ?long = "replicate 256 CHR ''a''"
  have ns: "\<not> list_ex is_slash ?long" by (simp add: list_ex_iff is_slash_def)
  have "split_on is_slash (''/app/uploads'' @ CHR ''/'' # ?long) =
      split_on is_slash ''/app/uploads'' @ split_on is_slash ?long"
    by (rule split_on_append) (rule is_slash_slash)
  then have sp: "split_on is_slash (''/app/uploads/'' @ ?long) = [[], ''app'', ''uploads'', ?long]"
    using split_on_single [OF ns] by (simp add: is_slash_def)
  have b: "byte_length ?long = 256" "byte_length (''/app/uploads/'' @ ?long) = 269"
    by (simp_all add: byte_length_def)
  have b': "byte_length ''app'' = 3" "byte_length ''uploads'' = 7"
    by (simp_all add: byte_length_def)
  have n: "CHR 0x00 \<notin> set (''/app/uploads/'' @ ?long)" by auto
  have 5: "writeFileSync fs0 (''/app/uploads/'' @ ?long) bytes =
       Inl (ENAMETOOLONG (''/app/uploads/'' @ ?long))"
    unfolding writeFileSync_def sp using n b by (simp add: b' fs0_def)
  from 1 2 3 4 5 show ?thesis by simp
qed

end
